theory Spec2Isabelle
  imports Complex_Main
begin

section \<open>JavaScript numbers\<close>

text \<open>
  The program computes with JavaScript numbers. A number is modelled as a finite real, one of
  the two infinities, or NaN. Arithmetic on the special values follows IEEE 754 (what
  JavaScript specifies); arithmetic on finite values is exact: rounding, overflow to an
  infinity and the sign of zero are not modelled, so \<open>x / 0\<close> for a finite nonzero \<open>x\<close> takes
  the sign of \<open>x\<close>.
\<close>

datatype jsnum = Fin real | PInf | NInf | NaN

instantiation jsnum :: "{plus, minus, uminus, times, inverse, abs, ord}"
begin

fun uminus_jsnum :: "jsnum \<Rightarrow> jsnum" where
  "uminus_jsnum (Fin a) = Fin (- a)"
| "uminus_jsnum PInf = NInf"
| "uminus_jsnum NInf = PInf"
| "uminus_jsnum NaN = NaN"

fun plus_jsnum :: "jsnum \<Rightarrow> jsnum \<Rightarrow> jsnum" where
  "plus_jsnum (Fin a) (Fin b) = Fin (a + b)"
| "plus_jsnum NaN _ = NaN"
| "plus_jsnum _ NaN = NaN"
| "plus_jsnum PInf NInf = NaN"
| "plus_jsnum NInf PInf = NaN"
| "plus_jsnum PInf _ = PInf"
| "plus_jsnum _ PInf = PInf"
| "plus_jsnum NInf _ = NInf"
| "plus_jsnum _ NInf = NInf"

definition minus_jsnum :: "jsnum \<Rightarrow> jsnum \<Rightarrow> jsnum" where
  "minus_jsnum (a::jsnum) b = a + (- b)"

fun times_jsnum :: "jsnum \<Rightarrow> jsnum \<Rightarrow> jsnum" where
  "times_jsnum (Fin a) (Fin b) = Fin (a * b)"
| "times_jsnum NaN _ = NaN"
| "times_jsnum _ NaN = NaN"
| "times_jsnum (Fin a) PInf = (if a = 0 then NaN else if 0 < a then PInf else NInf)"
| "times_jsnum (Fin a) NInf = (if a = 0 then NaN else if 0 < a then NInf else PInf)"
| "times_jsnum PInf (Fin b) = (if b = 0 then NaN else if 0 < b then PInf else NInf)"
| "times_jsnum NInf (Fin b) = (if b = 0 then NaN else if 0 < b then NInf else PInf)"
| "times_jsnum PInf PInf = PInf"
| "times_jsnum PInf NInf = NInf"
| "times_jsnum NInf PInf = NInf"
| "times_jsnum NInf NInf = PInf"

fun divide_jsnum :: "jsnum \<Rightarrow> jsnum \<Rightarrow> jsnum" where
  "divide_jsnum (Fin a) (Fin b) =
     (if b = 0 then (if a = 0 then NaN else if 0 < a then PInf else NInf) else Fin (a / b))"
| "divide_jsnum NaN _ = NaN"
| "divide_jsnum _ NaN = NaN"
| "divide_jsnum (Fin a) PInf = Fin 0"
| "divide_jsnum (Fin a) NInf = Fin 0"
| "divide_jsnum PInf (Fin b) = (if 0 \<le> b then PInf else NInf)"
| "divide_jsnum NInf (Fin b) = (if 0 \<le> b then NInf else PInf)"
| "divide_jsnum PInf PInf = NaN"
| "divide_jsnum PInf NInf = NaN"
| "divide_jsnum NInf PInf = NaN"
| "divide_jsnum NInf NInf = NaN"

definition inverse_jsnum :: "jsnum \<Rightarrow> jsnum" where
  "inverse_jsnum (a::jsnum) = divide (Fin 1) a"

fun abs_jsnum :: "jsnum \<Rightarrow> jsnum" where
  "abs_jsnum (Fin a) = Fin \<bar>a\<bar>"
| "abs_jsnum PInf = PInf"
| "abs_jsnum NInf = PInf"
| "abs_jsnum NaN = NaN"

fun less_jsnum :: "jsnum \<Rightarrow> jsnum \<Rightarrow> bool" where
  "less_jsnum (Fin a) (Fin b) = (a < b)"
| "less_jsnum NaN _ = False"
| "less_jsnum _ NaN = False"
| "less_jsnum _ NInf = False"
| "less_jsnum PInf _ = False"
| "less_jsnum NInf _ = True"
| "less_jsnum _ PInf = True"

fun less_eq_jsnum :: "jsnum \<Rightarrow> jsnum \<Rightarrow> bool" where
  "less_eq_jsnum (Fin a) (Fin b) = (a \<le> b)"
| "less_eq_jsnum NaN _ = False"
| "less_eq_jsnum _ NaN = False"
| "less_eq_jsnum NInf _ = True"
| "less_eq_jsnum _ PInf = True"
| "less_eq_jsnum _ NInf = False"
| "less_eq_jsnum PInf _ = False"

instance ..

end

text \<open>Strict equality \<open>===\<close> on numbers: NaN is equal to nothing, itself included.\<close>

fun js_seq :: "jsnum \<Rightarrow> jsnum \<Rightarrow> bool" where
  "js_seq NaN _ = False"
| "js_seq _ NaN = False"
| "js_seq a b = (a = b)"

fun isFinite :: "jsnum \<Rightarrow> bool" where
  "isFinite (Fin a) = True"
| "isFinite _ = False"

fun js_sqrt :: "jsnum \<Rightarrow> jsnum" where
  "js_sqrt (Fin a) = (if a < 0 then NaN else Fin (sqrt a))"
| "js_sqrt PInf = PInf"
| "js_sqrt NInf = NaN"
| "js_sqrt NaN = NaN"

fun js_cos :: "jsnum \<Rightarrow> jsnum" where
  "js_cos (Fin a) = Fin (cos a)"
| "js_cos _ = NaN"

fun js_sin :: "jsnum \<Rightarrow> jsnum" where
  "js_sin (Fin a) = Fin (sin a)"
| "js_sin _ = NaN"

fun js_max :: "jsnum \<Rightarrow> jsnum \<Rightarrow> jsnum" where
  "js_max NaN _ = NaN"
| "js_max _ NaN = NaN"
| "js_max a b = (if a \<le> b then b else a)"

text \<open>\<open>undefined\<close> where a number is expected converts to NaN.\<close>

fun toNumber :: "jsnum option \<Rightarrow> jsnum" where
  "toNumber None = NaN"
| "toNumber (Some a) = a"

datatype error = TypeError | RangeError


section \<open>Range checks\<close>

text \<open>
  \<open>checkRange\<close> throws a RangeError unless \<open>num\<close> lies in the interval from \<open>lower\<close> to
  \<open>upper\<close>, each end closed or open. Its TypeError branch needs a value that is not a number;
  every caller in the program that is modelled here passes a number.
\<close>

definition checkRange :: "jsnum \<Rightarrow> jsnum \<Rightarrow> bool \<Rightarrow> jsnum \<Rightarrow> bool \<Rightarrow> error + unit" where
  "checkRange num lower lowerClosed upper upperClosed =
     (if \<not> ((num > lower \<or> (lowerClosed \<and> js_seq num lower)) \<and>
             (num < upper \<or> (upperClosed \<and> js_seq num upper)))
      then Inl RangeError else Inr ())"

section \<open>BoundedMotion\<close>

record BoundedMotion =
  halfReboundVel :: jsnum
  accel :: jsnum
  upperPos :: jsnum
  trajStartGlobalTime :: "jsnum option"
  initPos :: jsnum
  pos :: jsnum
  initVel :: jsnum
  vel :: jsnum


definition setPos :: "BoundedMotion \<Rightarrow> jsnum \<Rightarrow> error + BoundedMotion" where
  "setPos m initPos' =
     (case checkRange initPos' (Fin 0) True (upperPos m) True of Inl e \<Rightarrow> Inl e | Inr _ \<Rightarrow>
      Inr (m\<lparr> initPos := initPos', pos := initPos' \<rparr>))"

definition setVel :: "BoundedMotion \<Rightarrow> jsnum \<Rightarrow> jsnum \<Rightarrow> error + BoundedMotion" where
  "setVel m globalTime initVel' =
     (case checkRange globalTime NInf False PInf False of Inl e \<Rightarrow> Inl e | Inr _ \<Rightarrow>
     (case checkRange initVel' NInf False PInf False of Inl e \<Rightarrow> Inl e | Inr _ \<Rightarrow>
      Inr (m\<lparr> trajStartGlobalTime := Some globalTime, initVel := initVel', vel := initVel' \<rparr>)))"



definition reboundVel :: "BoundedMotion \<Rightarrow> jsnum \<Rightarrow> jsnum" where
  "reboundVel m v = - v / ((\<bar>v\<bar> / halfReboundVel m) + Fin 1)"



text \<open>
  One pass through the body of the loop of \<open>update\<close>: either the position is accepted
  (\<open>Done pos vel\<close>), or a boundary was crossed and a new trajectory starts with the time that
  is left (\<open>NewTraj\<close>). The diagnostic printed when the hit time is replaced is not part of
  the state.
\<close>

datatype pass = NewTraj BoundedMotion jsnum | Done jsnum jsnum





section \<open>MouseTracker\<close>

text \<open>
  The fields of the tracker that hold numbers. The tracking element and the position handler
  are not fields of the model: the bounding rectangle of the tracking element and the value of
  \<open>Date.now()\<close> are arguments of the operations that read them, and each operation returns,
  beside the new tracker, how many times it has called the position handler.
\<close>

record MouseTracker =
  velX :: jsnum
  velY :: jsnum
  posX :: jsnum
  posY :: jsnum
  clientX :: jsnum
  clientY :: jsnum
  scrollX :: jsnum
  scrollY :: jsnum
  lastTimeStamp :: jsnum
  nowAtSample :: jsnum
  offsetX :: jsnum
  offsetY :: jsnum
  sampleExpireTime :: jsnum

record PointerEvent =
  ev_clientX :: jsnum
  ev_clientY :: jsnum
  ev_timeStamp :: jsnum

text \<open>
  The constructor, given what it reads from the page: the scroll position of the window, the
  corners of the two bounding rectangles and the two border widths of the relative element.
\<close>

definition newMouseTracker ::
  "jsnum \<Rightarrow> jsnum \<Rightarrow> jsnum \<Rightarrow> jsnum \<Rightarrow> jsnum \<Rightarrow> jsnum \<Rightarrow> jsnum \<Rightarrow> jsnum \<Rightarrow> MouseTracker" where
  "newMouseTracker winScrollX winScrollY trackingX trackingY relativeX relativeY borderLeft borderTop =
     \<lparr> velX = Fin 0, velY = Fin 0, posX = NaN, posY = NaN, clientX = NaN, clientY = NaN,
       scrollX = winScrollX, scrollY = winScrollY, lastTimeStamp = NaN, nowAtSample = NaN,
       offsetX = relativeX - trackingX + borderLeft,
       offsetY = relativeY - trackingY + borderTop,
       sampleExpireTime = Fin 300 \<rparr>"

definition recentVelSample :: "MouseTracker \<Rightarrow> jsnum \<Rightarrow> jsnum \<Rightarrow> jsnum" where
  "recentVelSample tr now v =
     (if (now - nowAtSample tr) \<le> sampleExpireTime tr then v else Fin 0)"

definition tracker_velX :: "MouseTracker \<Rightarrow> jsnum \<Rightarrow> jsnum" where
  "tracker_velX tr now = recentVelSample tr now (velX tr)"

definition tracker_velY :: "MouseTracker \<Rightarrow> jsnum \<Rightarrow> jsnum" where
  "tracker_velY tr now = recentVelSample tr now (velY tr)"

definition timeAvVel :: "MouseTracker \<Rightarrow> jsnum \<Rightarrow> jsnum \<Rightarrow> jsnum \<Rightarrow> jsnum" where
  "timeAvVel tr cur diffPos diffTimeMillisec =
     (let v = (diffPos / diffTimeMillisec) * Fin 1000
      in if \<not> isFinite v then Fin 0
         else if diffTimeMillisec > sampleExpireTime tr then v
         else if \<not> isFinite cur then v
         else if js_seq cur (Fin 0) then v
         else if v < Fin 0 \<and> cur > Fin 0 then v
         else if v > Fin 0 \<and> cur < Fin 0 then v
         else (cur + v) / Fin 2)"

definition updateMouseMotion ::
  "MouseTracker \<Rightarrow> jsnum \<Rightarrow> jsnum \<Rightarrow> jsnum \<Rightarrow> jsnum \<Rightarrow> jsnum \<Rightarrow> jsnum \<Rightarrow> MouseTracker \<times> nat" where
  "updateMouseMotion tr now rectX rectY diffX diffY timeStamp =
     (let diffTime = timeStamp - lastTimeStamp tr
      in (tr\<lparr> nowAtSample := now,
               velX := timeAvVel tr (velX tr) diffX diffTime,
               velY := timeAvVel tr (velY tr) diffY diffTime,
               lastTimeStamp := timeStamp,
               posX := clientX tr - rectX - offsetX tr,
               posY := clientY tr - rectY - offsetY tr \<rparr>, 1))"

definition updateToClientPos ::
  "MouseTracker \<Rightarrow> jsnum \<Rightarrow> jsnum \<Rightarrow> jsnum \<Rightarrow> PointerEvent \<Rightarrow> MouseTracker \<times> nat" where
  "updateToClientPos tr now rectX rectY ev =
     (let lastX = clientX tr; lastY = clientY tr;
          cX = ev_clientX ev; cY = ev_clientY ev
      in if js_seq lastX cX \<and> js_seq lastY cY then (tr, 0)
         else updateMouseMotion (tr\<lparr> clientX := cX, clientY := cY \<rparr>) now rectX rectY
                (cX - lastX) (cY - lastY) (ev_timeStamp ev))"

definition updateToUnknown ::
  "MouseTracker \<Rightarrow> jsnum \<Rightarrow> jsnum \<Rightarrow> jsnum \<Rightarrow> PointerEvent \<Rightarrow> MouseTracker \<times> nat" where
  "updateToUnknown tr now rectX rectY ev =
     updateMouseMotion (tr\<lparr> clientX := NaN, clientY := NaN \<rparr>) now rectX rectY
       NaN NaN (ev_timeStamp ev)"

definition updateFromMouseMove ::
  "MouseTracker \<Rightarrow> jsnum \<Rightarrow> jsnum \<Rightarrow> jsnum \<Rightarrow> PointerEvent \<Rightarrow> MouseTracker \<times> nat" where
  "updateFromMouseMove tr now rectX rectY ev = updateToClientPos tr now rectX rectY ev"

definition updateFromMouseOver ::
  "MouseTracker \<Rightarrow> jsnum \<Rightarrow> jsnum \<Rightarrow> jsnum \<Rightarrow> PointerEvent \<Rightarrow> MouseTracker \<times> nat" where
  "updateFromMouseOver tr now rectX rectY ev = updateToClientPos tr now rectX rectY ev"

definition updateFromScroll ::
  "MouseTracker \<Rightarrow> jsnum \<Rightarrow> jsnum \<Rightarrow> jsnum \<Rightarrow> jsnum \<Rightarrow> jsnum \<Rightarrow> PointerEvent \<Rightarrow> MouseTracker \<times> nat" where
  "updateFromScroll tr now rectX rectY newScrollX newScrollY ev =
     (let (tr', calls) = updateMouseMotion tr now rectX rectY
                           (newScrollX - scrollX tr) (newScrollY - scrollY tr) (ev_timeStamp ev)
      in (tr'\<lparr> scrollX := newScrollX, scrollY := newScrollY \<rparr>, calls))"

definition updateFromMouseLeave ::
  "MouseTracker \<Rightarrow> jsnum \<Rightarrow> jsnum \<Rightarrow> jsnum \<Rightarrow> PointerEvent \<Rightarrow> MouseTracker \<times> nat" where
  "updateFromMouseLeave tr now rectX rectY ev = updateToUnknown tr now rectX rectY ev"

definition updateFromResize ::
  "MouseTracker \<Rightarrow> jsnum \<Rightarrow> jsnum \<Rightarrow> jsnum \<Rightarrow> PointerEvent \<Rightarrow> MouseTracker \<times> nat" where
  "updateFromResize tr now rectX rectY ev = updateToUnknown tr now rectX rectY ev"


section \<open>MovingButton\<close>

text \<open>
  The state of the button. A timer handle is modelled by whether there is one, and the class
  list of the button element by the set of its class names. The bounding rectangle of the
  button, \<open>Date.now()\<close> and \<open>Math.random()\<close> are arguments of the operations that read them.
\<close>

record MovingButton =
  leftPos :: jsnum
  topPos :: jsnum
  motionX :: BoundedMotion
  motionY :: BoundedMotion
  motionIntervalID :: bool
  thickner :: jsnum
  hitWidth :: jsnum
  hitHeight :: jsnum
  hit :: bool
  hitImmune :: bool
  mouseTracker :: MouseTracker
  alertTimeoutID :: bool
  classList :: "string set"

definition getUnitVecAwayFrom :: "jsnum \<Rightarrow> jsnum \<Rightarrow> jsnum \<Rightarrow> jsnum \<times> jsnum" where
  "getUnitVecAwayFrom pX0 pY0 random =
     (let mag0 = js_sqrt ((pX0 * pX0) + (pY0 * pY0));
          ang = random * Fin 2 * Fin pi;
          (pX, pY, mag) =
            (if \<not> (mag0 > Fin 0) then (js_cos ang, js_sin ang, Fin 1) else (pX0, pY0, mag0))
      in (- (pX / mag), - (pY / mag)))"

definition giveVel :: "MovingButton \<Rightarrow> jsnum \<Rightarrow> jsnum \<Rightarrow> jsnum \<Rightarrow> error + MovingButton" where
  "giveVel b vX vY now =
     (let globalTime = now / Fin 1000
      in (case setPos (motionX b) (leftPos b) of Inl e \<Rightarrow> Inl e | Inr mX \<Rightarrow>
         (case setPos (motionY b) (topPos b) of Inl e \<Rightarrow> Inl e | Inr mY \<Rightarrow>
         (case setVel mX globalTime vX of Inl e \<Rightarrow> Inl e | Inr mX' \<Rightarrow>
         (case setVel mY globalTime vY of Inl e \<Rightarrow> Inl e | Inr mY' \<Rightarrow>
            Inr (b\<lparr> motionX := mX', motionY := mY',
                    classList := classList b - {''shiny''},
                    motionIntervalID := True \<rparr>))))))"


text \<open>\<open>entrySides\<close> returns the pair \<open>(horizontal, vertical)\<close>.\<close>

definition entrySides :: "MovingButton \<Rightarrow> jsnum \<Rightarrow> jsnum \<Rightarrow> jsnum \<Rightarrow> jsnum \<Rightarrow> bool \<times> bool" where
  "entrySides b x y vX vY =
     (if js_seq vX (Fin 0) \<or> js_seq vY (Fin 0) then (js_seq vY (Fin 0), js_seq vX (Fin 0))
      else
        (let lhs = \<bar>vX\<bar> * (if vY > Fin 0 then y else (hitHeight b - y));
             rhs = \<bar>vY\<bar> * (if vX > Fin 0 then x else (hitWidth b - x))
         in (lhs \<ge> rhs, lhs \<le> rhs)))"

definition minVel :: "jsnum \<Rightarrow> jsnum" where
  "minVel v =
     (if \<bar>v\<bar> < Fin 20 then
        (if js_seq v (Fin 0) then Fin 0 else if v > Fin 0 then Fin 20 else - Fin 20)
      else v)"

definition detectHit :: "MovingButton \<Rightarrow> jsnum \<Rightarrow> jsnum \<Rightarrow> error + MovingButton" where
  "detectHit b now random =
     (let tr = mouseTracker b;
          mouseY = posY tr - topPos b + thickner b;
          mouseX = posX tr - leftPos b + thickner b;
          isHit = (hitImmune b = False \<and> mouseY \<ge> Fin 0 \<and> mouseX \<ge> Fin 0 \<and>
                   mouseY \<le> hitHeight b \<and> mouseX \<le> hitWidth b)
      in if \<not> hit b \<and> isHit then
           (let mouseVelX = tracker_velX tr now;
                mouseVelY = tracker_velY tr now;
                relVelX = mouseVelX - vel (motionX b);
                relVelY = mouseVelY - vel (motionY b);
                (horizontal, vertical) = entrySides b mouseX mouseY relVelX relVelY;
                vX0 = (if horizontal then reboundVel (motionX b) (- relVelX) + mouseVelX
                       else vel (motionX b) + (mouseVelX / Fin 2));
                vY0 = (if vertical then reboundVel (motionY b) (- relVelY) + mouseVelY
                       else vel (motionY b) + (mouseVelY / Fin 2));
                vX1 = minVel vX0;
                vY1 = minVel vY0;
                mag = js_sqrt ((vX1 * vX1) + (vY1 * vY1));
                (vX, vY) =
                  (if \<not> (mag \<ge> Fin 30) then
                     (if \<not> (mag > Fin 0) then
                        (let halfWidth = hitWidth b / Fin 2;
                             halfHeight = hitHeight b / Fin 2;
                             pX = mouseX - halfWidth;
                             pY = mouseY - halfHeight;
                             (vecX, vecY) = getUnitVecAwayFrom pX pY random;
                             depthX = halfWidth - \<bar>pX\<bar>;
                             depthY = halfHeight - \<bar>pY\<bar>;
                             depth = js_sqrt ((depthX * depthX) + (depthY * depthY));
                             v = js_max (Fin 30) (depth * Fin 10)
                         in (v * vecX, v * vecY))
                      else (vX1 * (Fin 30 / mag), vY1 * (Fin 30 / mag)))
                   else (vX1, vY1))
            in (case giveVel b vX vY now of Inl e \<Rightarrow> Inl e
                | Inr b' \<Rightarrow> Inr (b'\<lparr> hit := isHit \<rparr>)))
         else Inr (b\<lparr> hit := isHit \<rparr>))"

section \<open>Double-precision arithmetic\<close>

text \<open>
  The operations \<open>+\<close>, \<open>-\<close>, \<open>*\<close> and \<open>/\<close> above compute with finite numbers as exact reals.
  The numbers of the code are IEEE 754 doubles: the result of each operation is the real
  result rounded to the nearest double, to the one with the even significand when two are
  equally near, and to an infinity when the rounded value is beyond the largest double.
  \<open>binade x\<close> is the exponent of the binade that holds \<open>x\<close> (that of the subnormal numbers
  from \<open>2 powr - 1022\<close> down), \<open>ulp x\<close> the distance between the doubles of that binade,
  and \<open>toDouble\<close> the rounding. The two zeros of IEEE arithmetic are one number here.
\<close>

definition binade :: "real \<Rightarrow> int" where
  "binade x = (if x = 0 then - 1022 else max (- 1022) \<lfloor>log 2 \<bar>x\<bar>\<rfloor>)"

definition ulp :: "real \<Rightarrow> real" where
  "ulp x = 2 powr (of_int (binade x) - 52)"

definition roundEven :: "real \<Rightarrow> int" where
  "roundEven y =
     (let n = \<lfloor>y\<rfloor>; f = y - of_int n in
      if f < 1 / 2 then n else if 1 / 2 < f then n + 1 else if even n then n else n + 1)"

definition toDouble :: "real \<Rightarrow> jsnum" where
  "toDouble x =
     (let r = of_int (roundEven (x / ulp x)) * ulp x in
      if 2 ^ 1024 \<le> \<bar>r\<bar> then (if 0 < x then PInf else NInf) else Fin r)"

text \<open>The finite doubles: 53 bits of significand, exponents from -1074 to 971.\<close>

definition isDouble :: "real \<Rightarrow> bool" where
  "isDouble d \<longleftrightarrow>
     (\<exists>k e. d = of_int k * 2 powr (of_int e) \<and> \<bar>k\<bar> < 2 ^ 53 \<and> - 1074 \<le> e \<and> e \<le> 971)"

text \<open>
  The arithmetic of the code on doubles. With an infinity or NaN among the operands, and for
  a division by zero, the result is the one of the exact operation above.
\<close>

fun fadd :: "jsnum \<Rightarrow> jsnum \<Rightarrow> jsnum" where
  "fadd (Fin a) (Fin b) = toDouble (a + b)"
| "fadd a b = a + b"

fun fsub :: "jsnum \<Rightarrow> jsnum \<Rightarrow> jsnum" where
  "fsub (Fin a) (Fin b) = toDouble (a - b)"
| "fsub a b = a - b"

fun fmul :: "jsnum \<Rightarrow> jsnum \<Rightarrow> jsnum" where
  "fmul (Fin a) (Fin b) = toDouble (a * b)"
| "fmul a b = a * b"

fun fdiv :: "jsnum \<Rightarrow> jsnum \<Rightarrow> jsnum" where
  "fdiv (Fin a) (Fin b) = (if b = 0 then Fin a / Fin b else toDouble (a / b))"
| "fdiv a b = a / b"

fun fsqrt :: "jsnum \<Rightarrow> jsnum" where
  "fsqrt (Fin a) = (if a < 0 then NaN else toDouble (sqrt a))"
| "fsqrt a = js_sqrt a"

text \<open>
  \<open>Math.cos\<close> and \<open>Math.sin\<close> are taken as correctly rounded, which the language does not
  promise.
\<close>

fun fcos :: "jsnum \<Rightarrow> jsnum" where
  "fcos (Fin a) = toDouble (cos a)"
| "fcos _ = NaN"

fun fsin :: "jsnum \<Rightarrow> jsnum" where
  "fsin (Fin a) = toDouble (sin a)"
| "fsin _ = NaN"


section \<open>BoundedMotion in double precision\<close>

text \<open>
  The methods of \<open>BoundedMotion\<close> that compute, with the arithmetic of doubles; the names are
  those of the exact versions with the suffix 64. The constructor, \<open>setPos\<close> and \<open>setVel\<close>
  compare and store only, and are the same for both.
\<close>

definition velAtTrajTime64 :: "BoundedMotion \<Rightarrow> jsnum \<Rightarrow> jsnum" where
  "velAtTrajTime64 m trajTime =
     (if initVel m \<ge> Fin 0 then fsub (initVel m) (fmul (accel m) trajTime)
      else fadd (initVel m) (fmul (accel m) trajTime))"

definition trajTimeAtStop64 :: "BoundedMotion \<Rightarrow> jsnum" where
  "trajTimeAtStop64 m = fdiv \<bar>initVel m\<bar> (accel m)"

definition reboundVel64 :: "BoundedMotion \<Rightarrow> jsnum \<Rightarrow> jsnum" where
  "reboundVel64 m v = fdiv (- v) (fadd (fdiv \<bar>v\<bar> (halfReboundVel m)) (Fin 1))"

definition posAtTrajTime64 :: "BoundedMotion \<Rightarrow> jsnum \<Rightarrow> jsnum \<Rightarrow> jsnum" where
  "posAtTrajTime64 m trajTime v =
     fadd (initPos m) (fmul (fdiv (fadd (initVel m) v) (Fin 2)) trajTime)"

definition trajTimeAtDisp64 :: "BoundedMotion \<Rightarrow> jsnum \<Rightarrow> jsnum" where
  "trajTimeAtDisp64 m disp =
     fdiv (fsub \<bar>initVel m\<bar>
             (fsqrt (fsub (fmul (initVel m) (initVel m)) (fmul (fmul (Fin 2) (accel m)) disp))))
          (accel m)"

definition updatePass64 :: "BoundedMotion \<Rightarrow> jsnum \<Rightarrow> pass" where
  "updatePass64 m trajTime0 =
     (let v0 = velAtTrajTime64 m trajTime0;
          changed = ((initVel m \<ge> Fin 0 \<and> v0 < Fin 0) \<or> (initVel m < Fin 0 \<and> v0 > Fin 0));
          trajTime = (if changed then trajTimeAtStop64 m else trajTime0);
          v = (if changed then Fin 0 else v0);
          p = posAtTrajTime64 m trajTime v
      in if p < Fin 0 \<or> p > upperPos m then
           (let disp = (if p < Fin 0 then initPos m else fsub (upperPos m) (initPos m));
                hitTime0 = trajTimeAtDisp64 m disp;
                hitTime = (if \<not> (hitTime0 \<ge> Fin 0 \<and> hitTime0 \<le> trajTime)
                           then trajTime else hitTime0);
                hitVel = velAtTrajTime64 m hitTime
            in NewTraj
                 (m\<lparr> trajStartGlobalTime := Some (fadd (toNumber (trajStartGlobalTime m)) hitTime),
                     initVel := reboundVel64 m hitVel,
                     initPos := (if p < Fin 0 then Fin 0 else upperPos m) \<rparr>)
                 (fsub trajTime hitTime))
         else Done p v)"

partial_function (option) updateLoop64 :: "BoundedMotion \<Rightarrow> jsnum \<Rightarrow> BoundedMotion option" where
  "updateLoop64 m trajTime =
     (case updatePass64 m trajTime of
        NewTraj m' trajTime' \<Rightarrow> updateLoop64 m' trajTime'
      | Done p v \<Rightarrow> Some (m\<lparr> pos := p, vel := v \<rparr>))"

definition update64 :: "BoundedMotion \<Rightarrow> jsnum \<Rightarrow> (error + BoundedMotion) option" where
  "update64 m globalTime =
     (let trajTime = fsub globalTime (toNumber (trajStartGlobalTime m))
      in if \<not> (trajTime \<ge> Fin 0) then Some (Inl RangeError)
         else map_option Inr (updateLoop64 m trajTime))"


section \<open>The click in double precision\<close>

text \<open>
  The part of \<open>MovingButton\<close> that a click runs, with the arithmetic of doubles. \<open>Math.PI\<close> is
  the double nearest to \<open>pi\<close>.
\<close>

definition getUnitVecAwayFrom64 :: "jsnum \<Rightarrow> jsnum \<Rightarrow> jsnum \<Rightarrow> jsnum \<times> jsnum" where
  "getUnitVecAwayFrom64 pX0 pY0 random =
     (let mag0 = fsqrt (fadd (fmul pX0 pX0) (fmul pY0 pY0));
          ang = fmul (fmul random (Fin 2)) (toDouble pi);
          (pX, pY, mag) =
            (if \<not> (mag0 > Fin 0) then (fcos ang, fsin ang, Fin 1) else (pX0, pY0, mag0))
      in (- (fdiv pX mag), - (fdiv pY mag)))"

definition giveVel64 :: "MovingButton \<Rightarrow> jsnum \<Rightarrow> jsnum \<Rightarrow> jsnum \<Rightarrow> error + MovingButton" where
  "giveVel64 b vX vY now =
     (let globalTime = fdiv now (Fin 1000)
      in (case setPos (motionX b) (leftPos b) of Inl e \<Rightarrow> Inl e | Inr mX \<Rightarrow>
         (case setPos (motionY b) (topPos b) of Inl e \<Rightarrow> Inl e | Inr mY \<Rightarrow>
         (case setVel mX globalTime vX of Inl e \<Rightarrow> Inl e | Inr mX' \<Rightarrow>
         (case setVel mY globalTime vY of Inl e \<Rightarrow> Inl e | Inr mY' \<Rightarrow>
            Inr (b\<lparr> motionX := mX', motionY := mY',
                    classList := classList b - {''shiny''},
                    motionIntervalID := True \<rparr>))))))"

definition clicked64 ::
  "MovingButton \<Rightarrow> PointerEvent \<Rightarrow> jsnum \<Rightarrow> jsnum \<Rightarrow> jsnum \<Rightarrow> jsnum \<Rightarrow> error + MovingButton" where
  "clicked64 b ev rectX rectY now random =
     (let (pX, pY) =
            (if js_seq (ev_clientX ev) (Fin 0) \<and> js_seq (ev_clientY ev) (Fin 0)
             then (Fin 0, Fin 0)
             else (fsub (fadd (fsub (ev_clientX ev) rectX) (thickner b)) (fdiv (hitWidth b) (Fin 2)),
                   fsub (fadd (fsub (ev_clientY ev) rectY) (thickner b)) (fdiv (hitHeight b) (Fin 2))));
          (vecX, vecY) = getUnitVecAwayFrom64 pX pY random
      in (case giveVel64 (b\<lparr> hitImmune := True \<rparr>) (fmul (Fin 4000) vecX) (fmul (Fin 4000) vecY) now of
            Inl e \<Rightarrow> Inl e
          | Inr b' \<Rightarrow>
              Inr (b'\<lparr> classList := insert ''alert'' (classList b' - {''alert-fade''}),
                       alertTimeoutID := True \<rparr>)))"

section \<open>Notions used to state the properties\<close>

text \<open>The sign of a number, as \<open>Math.sign\<close> gives it.\<close>

fun js_sign :: "jsnum \<Rightarrow> jsnum" where
  "js_sign (Fin a) = Fin (sgn a)"
| "js_sign PInf = Fin 1"
| "js_sign NInf = Fin (- 1)"
| "js_sign NaN = NaN"


text \<open>
  The engine that the button creates for each axis, \<open>new BoundedMotion(bound, 1000, 25)\<close>,
  here with the bound 100, and a tracker and a button around it.
\<close>

definition demoMotion :: BoundedMotion where
  "demoMotion = \<lparr> halfReboundVel = Fin 1000, accel = Fin 25, upperPos = Fin 100,
      trajStartGlobalTime = None, initPos = NaN, pos = NaN, initVel = Fin 0, vel = Fin 0 \<rparr>"

definition demoTracker :: MouseTracker where
  "demoTracker = newMouseTracker (Fin 0) (Fin 0) (Fin 0) (Fin 0) (Fin 10) (Fin 10) (Fin 1) (Fin 1)"

definition demoButton :: MovingButton where
  "demoButton = \<lparr> leftPos = Fin 50, topPos = Fin 50,
      motionX = demoMotion\<lparr> initPos := Fin 50, pos := Fin 50 \<rparr>,
      motionY = demoMotion\<lparr> initPos := Fin 50, pos := Fin 50 \<rparr>,
      motionIntervalID = False, thickner = Fin 2, hitWidth = Fin 44, hitHeight = Fin 24,
      hit = False, hitImmune = False, mouseTracker = demoTracker, alertTimeoutID = False,
      classList = {''shiny''} \<rparr>"

text \<open>
  The blending rule of the velocity estimate: \<open>c\<close> is the current estimate, \<open>r\<close> the raw
  velocity and \<open>dt\<close> the elapsed time in milliseconds. The raw velocity replaces the estimate
  when the two have strictly opposite signs.
\<close>

definition blendVel :: "jsnum \<Rightarrow> jsnum \<Rightarrow> jsnum \<Rightarrow> jsnum" where
  "blendVel c r dt =
     (if \<not> isFinite r then Fin 0
      else if dt > Fin 300 then r
      else if \<not> isFinite c \<or> js_seq c (Fin 0) \<or> (r < Fin 0 \<and> Fin 0 < c) \<or> (Fin 0 < r \<and> c < Fin 0) then r
      else (c + r) / Fin 2)"








text \<open>
  Calls on an engine, and a sequence of calls run from left to right: the run stops at the
  first call that throws, and is \<open>None\<close> when an update does not return.
\<close>

datatype call = SetPos jsnum | SetVel jsnum jsnum | Update jsnum



text \<open>The same with the arithmetic of doubles.\<close>

fun applyCall64 :: "BoundedMotion \<Rightarrow> call \<Rightarrow> (error + BoundedMotion) option" where
  "applyCall64 m (SetPos p) = Some (setPos m p)"
| "applyCall64 m (SetVel t v) = Some (setVel m t v)"
| "applyCall64 m (Update t) = update64 m t"

fun runCalls64 :: "BoundedMotion \<Rightarrow> call list \<Rightarrow> (error + BoundedMotion) option" where
  "runCalls64 m [] = Some (Inr m)"
| "runCalls64 m (c # cs) =
     (case applyCall64 m c of
        None \<Rightarrow> None
      | Some (Inl e) \<Rightarrow> Some (Inl e)
      | Some (Inr m') \<Rightarrow> runCalls64 m' cs)"

text \<open>
  The hit time of a pass of the loop that rebounds, the value of \<open>hitTime\<close> that the pass adds
  to the start of the trajectory and takes from the time that is left; and the hit times of
  the rebounds of one run of the loop, in their order.
\<close>

definition passHitTime64 :: "BoundedMotion \<Rightarrow> jsnum \<Rightarrow> jsnum" where
  "passHitTime64 m trajTime0 =
     (let v0 = velAtTrajTime64 m trajTime0;
          changed = ((initVel m \<ge> Fin 0 \<and> v0 < Fin 0) \<or> (initVel m < Fin 0 \<and> v0 > Fin 0));
          trajTime = (if changed then trajTimeAtStop64 m else trajTime0);
          v = (if changed then Fin 0 else v0);
          p = posAtTrajTime64 m trajTime v;
          disp = (if p < Fin 0 then initPos m else fsub (upperPos m) (initPos m));
          hitTime0 = trajTimeAtDisp64 m disp
      in if \<not> (hitTime0 \<ge> Fin 0 \<and> hitTime0 \<le> trajTime) then trajTime else hitTime0)"

partial_function (option) hitTimes64 :: "BoundedMotion \<Rightarrow> jsnum \<Rightarrow> jsnum list option" where
  "hitTimes64 m trajTime =
     (case updatePass64 m trajTime of
        NewTraj m' trajTime' \<Rightarrow>
          Option.bind (hitTimes64 m' trajTime') (\<lambda>hs. Some (passHitTime64 m trajTime # hs))
      | Done p v \<Rightarrow> Some [])"


definition smallMotion :: BoundedMotion where
  "smallMotion = \<lparr> halfReboundVel = Fin 6, accel = Fin 32, upperPos = Fin 2,
      trajStartGlobalTime = None, initPos = NaN, pos = NaN, initVel = Fin 0, vel = Fin 0 \<rparr>"

text \<open>
  The small engine after \<open>setPos(1)\<close> and \<open>setVel(0, 10)\<close>, and after the update to the time
  \<open>1 / 4\<close> that follows: one rebound at the upper wall at the time \<open>1 / 8\<close>.
\<close>

definition smallStart :: BoundedMotion where
  "smallStart = smallMotion\<lparr> initPos := Fin 1, pos := Fin 1, trajStartGlobalTime := Some (Fin 0),
      initVel := Fin 10, vel := Fin 10 \<rparr>"

definition smallEnd :: BoundedMotion where
  "smallEnd = smallMotion\<lparr> initPos := Fin 2, pos := Fin (119 / 64),
      trajStartGlobalTime := Some (Fin (1 / 8)), initVel := Fin (- 3), vel := Fin 0 \<rparr>"





section \<open>Facts about numbers\<close>

lemma jsnum_NaN_right [simp]:
  "\<not> x < NaN" "\<not> x \<le> NaN" "x + NaN = NaN" "x * NaN = NaN" "x / NaN = NaN" "x - NaN = NaN"
  by (cases x; simp add: minus_jsnum_def)+

lemma jsnum_NaN_left [simp]: "NaN - x = NaN"
  by (simp add: minus_jsnum_def)

lemma jsnum_less_PInf [simp]: "\<not> PInf < x" "x \<le> PInf \<longleftrightarrow> x \<noteq> NaN"
  by (cases x; simp)+

lemma jsnum_less_or_seq: "a < b \<or> js_seq a b \<longleftrightarrow> a \<le> b"
  by (cases a; cases b; auto)



lemma checkRange_finite:
  "checkRange a NInf False PInf False = (if isFinite a then Inr () else Inl RangeError)"
  by (cases a) (auto simp: checkRange_def)

section \<open>Rounding to a double\<close>

lemma ulp_pos: "0 < ulp x"
  by (simp add: ulp_def)

lemma roundEven_near:
  assumes "\<bar>y - of_int k\<bar> < 1 / 2"
  shows "roundEven y = k"
proof -
  consider "of_int k \<le> y" | "y < of_int k" by linarith
  then show ?thesis
  proof cases
    case 1
    then have "\<lfloor>y\<rfloor> = k" using assms by (intro floor_unique) linarith+
    then show ?thesis using assms 1 by (simp add: roundEven_def Let_def)
  next
    case 2
    then have f: "\<lfloor>y\<rfloor> = k - 1" using assms by (intro floor_unique) auto
    have "1 / 2 < y - of_int (k - 1)" using assms 2 by simp
    then show ?thesis unfolding roundEven_def Let_def f by simp
  qed
qed

lemma roundEven_of_int: "roundEven (of_int k) = k"
  by (rule roundEven_near) simp

lemma roundEven_bounds: "y - 1 / 2 \<le> of_int (roundEven y)" "of_int (roundEven y) \<le> y + 1 / 2"
  unfolding roundEven_def Let_def by (auto; linarith)+

lemma roundEven_mono:
  assumes "y1 \<le> y2"
  shows "roundEven y1 \<le> roundEven y2"
proof (rule ccontr)
  assume "\<not> roundEven y1 \<le> roundEven y2"
  then have lt: "roundEven y2 + 1 \<le> roundEven y1" by simp
  have a: "of_int (roundEven y1) \<le> y1 + 1 / 2" "y2 - 1 / 2 \<le> of_int (roundEven y2)"
    by (rule roundEven_bounds)+
  have "real_of_int (roundEven y2) + 1 \<le> of_int (roundEven y1)" using lt by linarith
  then have e: "y1 = y2" "of_int (roundEven y1) = y1 + 1 / 2" "of_int (roundEven y2) = y2 - 1 / 2"
    using a assms by linarith+
  have f1: "\<lfloor>y1\<rfloor> = roundEven y1 - 1" using e(2) by (simp add: floor_eq_iff)
  have "roundEven y2 = roundEven y1" using e(1) by simp
  then show False using lt by simp
qed

lemma roundEven_minus: "roundEven (- y) = - roundEven y"
proof (cases "y = of_int \<lfloor>y\<rfloor>")
  case True
  then obtain k where "y = of_int k" by metis
  then show ?thesis using roundEven_of_int [of "- k"] roundEven_of_int [of k] by simp
next
  case False
  then have lt: "of_int \<lfloor>y\<rfloor> < y" "y < of_int \<lfloor>y\<rfloor> + 1" by linarith+
  then have fl: "\<lfloor>- y\<rfloor> = - \<lfloor>y\<rfloor> - 1" by (intro floor_unique) (simp, linarith+)
  show ?thesis using lt unfolding roundEven_def Let_def fl by (auto; linarith?)
qed

lemma binade_ge: "- 1022 \<le> binade x"
  by (simp add: binade_def)

lemma binade_eqI:
  assumes "- 1022 \<le> E" "2 powr (of_int E) \<le> \<bar>x\<bar>" "\<bar>x\<bar> < 2 powr (of_int E + 1)"
  shows "binade x = E"
proof -
  have pos: "0 < \<bar>x\<bar>" using assms(2) by (smt (verit) powr_gt_zero)
  then have "\<lfloor>log 2 \<bar>x\<bar>\<rfloor> = E" using assms by (simp add: floor_log_eq_powr_iff)
  then show ?thesis using pos assms(1) by (simp add: binade_def)
qed

lemma binade_small:
  assumes "\<bar>x\<bar> < 2 powr (- 1022)"
  shows "binade x = - 1022"
proof (cases "x = 0")
  case True then show ?thesis by (simp add: binade_def)
next
  case False
  then have pos: "0 < \<bar>x\<bar>" by simp
  define k where "k = \<lfloor>log 2 \<bar>x\<bar>\<rfloor>"
  have "2 powr (of_int k) \<le> \<bar>x\<bar>"
    using floor_log_eq_powr_iff [of "\<bar>x\<bar>" 2 k] pos k_def by simp
  then have "2 powr (of_int k) < (2::real) powr (- 1022)" using assms by linarith
  then have "real_of_int k < - 1022" by simp
  then have "k \<le> - 1022" by linarith
  then show ?thesis using False by (simp add: binade_def k_def)
qed

lemma binade_upper: "\<bar>x\<bar> < 2 powr (of_int (binade x) + 1)"
proof (cases "x = 0")
  case True then show ?thesis by simp
next
  case False
  then have pos: "0 < \<bar>x\<bar>" by simp
  define k where "k = \<lfloor>log 2 \<bar>x\<bar>\<rfloor>"
  have "\<bar>x\<bar> < 2 powr (of_int k + 1)"
    using floor_log_eq_powr_iff [of "\<bar>x\<bar>" 2 k] pos k_def by simp
  also have "\<dots> \<le> 2 powr (of_int (binade x) + 1)"
    using False by (simp add: binade_def k_def)
  finally show ?thesis .
qed

lemma binade_lower:
  assumes "2 powr (- 1022) \<le> \<bar>x\<bar>"
  shows "2 powr (of_int (binade x)) \<le> \<bar>x\<bar>"
proof -
  have pos: "0 < \<bar>x\<bar>" using assms by (smt (verit) powr_gt_zero)
  define k where "k = \<lfloor>log 2 \<bar>x\<bar>\<rfloor>"
  have a: "2 powr (of_int k) \<le> \<bar>x\<bar>" "\<bar>x\<bar> < 2 powr (of_int k + 1)"
    using floor_log_eq_powr_iff [of "\<bar>x\<bar>" 2 k] pos k_def by simp_all
  have "(2::real) powr (- 1022) < 2 powr (of_int k + 1)" using a(2) assms by linarith
  then have "- 1022 < real_of_int k + 1" by simp
  then have "- 1022 \<le> k" by linarith
  then have "binade x = k" using pos by (simp add: binade_def k_def)
  then show ?thesis using a(1) by simp
qed

lemma binade_mono:
  assumes "\<bar>x\<bar> \<le> \<bar>y\<bar>"
  shows "binade x \<le> binade y"
proof (cases "\<bar>x\<bar> < 2 powr (- 1022)")
  case True
  then show ?thesis using binade_small [of x] binade_ge [of y] by simp
next
  case False
  then have "2 powr (of_int (binade x)) \<le> \<bar>x\<bar>" using binade_lower [of x] by simp
  also have "\<dots> \<le> \<bar>y\<bar>" by (rule assms)
  also have "\<dots> < 2 powr (of_int (binade y) + 1)" by (rule binade_upper)
  finally have "real_of_int (binade x) < of_int (binade y) + 1" by simp
  then show ?thesis by linarith
qed

lemma binade_minus [simp]: "binade (- x) = binade x"
  by (simp add: binade_def)

lemma ulp_minus [simp]: "ulp (- x) = ulp x"
  by (simp add: ulp_def)

lemma roundEven_zero [simp]: "roundEven 0 = 0"
  using roundEven_of_int [of 0] by simp

lemma toDouble_zero [simp]: "toDouble 0 = Fin 0"
  unfolding toDouble_def Let_def by simp

lemma toDouble_minus: "toDouble (- x) = - toDouble x"
  unfolding toDouble_def Let_def by (cases "x = 0") (simp_all add: roundEven_minus)

lemma powr_split53: "2 powr (b + 1) = 2 ^ 53 * 2 powr (b - 52)" for b :: real
proof -
  have "2 powr (b + 1) = 2 powr 53 * 2 powr (b - 52)" unfolding powr_add [symmetric] by (simp add: add.commute)
  then show ?thesis by simp
qed

lemma powr_split52: "2 powr b = 2 ^ 52 * 2 powr (b - 52)" for b :: real
proof -
  have "2 powr b = 2 powr 52 * 2 powr (b - 52)" unfolding powr_add [symmetric] by simp
  then show ?thesis by simp
qed

text \<open>The significand of a number lies below \<open>2 ^ 53\<close>, and from \<open>2 ^ 52\<close> on for a normal one.\<close>

lemma mant_upper: "\<bar>x\<bar> / ulp x < 2 ^ 53"
proof -
  have "\<bar>x\<bar> < 2 powr (of_int (binade x) + 1)" by (rule binade_upper)
  also have "\<dots> = 2 ^ 53 * ulp x"
    unfolding ulp_def by (rule powr_split53)
  finally show ?thesis using ulp_pos [of x] by (simp add: field_simps)
qed

lemma mant_lower:
  assumes "2 powr (- 1022) \<le> \<bar>x\<bar>"
  shows "2 ^ 52 \<le> \<bar>x\<bar> / ulp x"
proof -
  have "2 ^ 52 * ulp x = 2 powr (of_int (binade x))"
    unfolding ulp_def by (rule powr_split52 [symmetric])
  also have "\<dots> \<le> \<bar>x\<bar>" by (rule binade_lower [OF assms])
  finally show ?thesis using ulp_pos [of x] by (simp add: field_simps)
qed

lemma toDouble_nearI:
  assumes "binade x = E" "\<bar>x / 2 powr (of_int E - 52) - of_int k\<bar> < 1 / 2"
    and "\<bar>of_int k * 2 powr (of_int E - 52)\<bar> < (2::real) ^ 1024"
  shows "toDouble x = Fin (of_int k * 2 powr (of_int E - 52))"
proof -
  have u: "ulp x = 2 powr (of_int E - 52)" by (simp add: ulp_def assms(1))
  have "roundEven (x / ulp x) = k" unfolding u by (rule roundEven_near [OF assms(2)])
  then show ?thesis unfolding toDouble_def Let_def using assms(3) u by simp
qed

lemma int_abs_less_real: "\<bar>k\<bar> < 2 ^ n \<Longrightarrow> \<bar>real_of_int k\<bar> < 2 ^ n"
proof -
  assume "\<bar>k\<bar> < 2 ^ n"
  then have "real_of_int \<bar>k\<bar> < real_of_int (2 ^ n)" by (simp only: of_int_less_iff)
  then show ?thesis by simp
qed

lemma int_le_real: "2 ^ n \<le> k \<Longrightarrow> 2 ^ n \<le> real_of_int k"
proof -
  assume "2 ^ n \<le> k"
  then have "real_of_int (2 ^ n) \<le> real_of_int k" by (simp only: of_int_le_iff)
  then show ?thesis by simp
qed

lemma powr_int_nonneg: "0 \<le> n \<Longrightarrow> (2::real) powr (of_int n) = of_int (2 ^ nat n)"
  by (simp add: powr_realpow [symmetric])

lemma ulp_divides:
  assumes "isDouble d" "\<bar>x\<bar> \<le> \<bar>d\<bar>"
  shows "\<exists>K. d = of_int K * ulp x"
proof -
  obtain k e where d: "d = of_int k * 2 powr (of_int e)" and k: "\<bar>k\<bar> < 2 ^ 53" and e: "- 1074 \<le> e"
    using assms(1) unfolding isDouble_def by blast
  have le: "binade d - 52 \<le> e"
  proof (cases "\<bar>d\<bar> < 2 powr (- 1022)")
    case True
    then show ?thesis using binade_small [of d] e by simp
  next
    case False
    then have "2 powr (of_int (binade d)) \<le> \<bar>d\<bar>" using binade_lower [of d] by simp
    also have "\<bar>d\<bar> = \<bar>of_int k\<bar> * 2 powr (of_int e)" by (simp add: d abs_mult)
    also have "\<dots> < 2 ^ 53 * 2 powr (of_int e)"
    proof -
      have "\<bar>real_of_int k\<bar> < 2 ^ 53" using k by (rule int_abs_less_real)
      then show ?thesis by (simp add: mult_strict_right_mono)
    qed
    also have "\<dots> = 2 powr (of_int e + 53)"
    proof -
      have "(2::real) powr (of_int e + 53) = 2 powr (of_int e) * 2 powr 53" by (simp only: powr_add)
      then show ?thesis by simp
    qed
    finally have "real_of_int (binade d) < of_int e + 53" by simp
    then show ?thesis by linarith
  qed
  have "binade x \<le> binade d" by (rule binade_mono [OF assms(2)])
  then have n: "0 \<le> e - (binade x - 52)" using le by linarith
  define n where "n = e - (binade x - 52)"
  have "2 powr (of_int e) = 2 powr (of_int n) * ulp x"
    unfolding ulp_def n_def powr_add [symmetric] by simp
  also have "(2::real) powr (of_int n) = of_int (2 ^ nat n)" using n by (intro powr_int_nonneg) (simp add: n_def)
  finally have "d = of_int (k * 2 ^ nat n) * ulp x" by (simp add: d)
  then show ?thesis by blast
qed

lemma isDouble_bound:
  assumes "isDouble d"
  shows "\<bar>d\<bar> < 2 ^ 1024"
proof -
  obtain k e where d: "d = of_int k * 2 powr (of_int e)" and k: "\<bar>k\<bar> < 2 ^ 53" and e: "e \<le> 971"
    using assms(1) unfolding isDouble_def by blast
  have "\<bar>d\<bar> = \<bar>of_int k\<bar> * 2 powr (of_int e)" by (simp add: d abs_mult)
  also have "\<dots> < 2 ^ 53 * 2 powr (of_int e)"
  proof -
    have "\<bar>real_of_int k\<bar> < 2 ^ 53" using k by (rule int_abs_less_real)
    then show ?thesis by (simp add: mult_strict_right_mono)
  qed
  also have "\<dots> \<le> 2 ^ 53 * 2 powr 971"
  proof -
    have "(2::real) powr (of_int e) \<le> 2 powr (of_int 971)" using e by (simp only: powr_le_cancel_iff of_int_le_iff)
    then show ?thesis by simp

  qed
  also have "\<dots> = 2 ^ 1024" by simp
  finally show ?thesis .
qed

lemma toDouble_abs_le:
  assumes "isDouble d" "\<bar>x\<bar> \<le> \<bar>d\<bar>"
  shows "\<exists>r. toDouble x = Fin r \<and> \<bar>r\<bar> \<le> \<bar>d\<bar> \<and> (0 \<le> x \<longrightarrow> 0 \<le> r) \<and> (x \<le> 0 \<longrightarrow> r \<le> 0)"
proof -
  obtain K where K: "d = of_int K * ulp x" using ulp_divides [OF assms] by blast
  define y where "y = x / ulp x"
  define r where "r = of_int (roundEven y) * ulp x"
  have u: "0 < ulp x" by (rule ulp_pos)
  have "\<bar>y\<bar> \<le> \<bar>of_int K\<bar>"
    using assms(2) u unfolding y_def K by (simp add: abs_mult field_simps)
  then have yb: "of_int (- \<bar>K\<bar>) \<le> y" "y \<le> of_int \<bar>K\<bar>" by simp_all
  have "roundEven (of_int (- \<bar>K\<bar>)) \<le> roundEven y" "roundEven y \<le> roundEven (of_int \<bar>K\<bar>)"
    by (rule roundEven_mono [OF yb(1)], rule roundEven_mono [OF yb(2)])
  then have "\<bar>roundEven y\<bar> \<le> \<bar>K\<bar>" unfolding roundEven_of_int by linarith
  then have "\<bar>real_of_int (roundEven y)\<bar> \<le> \<bar>of_int K\<bar>" by linarith
  then have rb: "\<bar>r\<bar> \<le> \<bar>d\<bar>" using u unfolding r_def K by (simp add: abs_mult mult_right_mono)
  then have fin: "toDouble x = Fin r"
    using isDouble_bound [OF assms(1)] unfolding toDouble_def Let_def r_def y_def by simp
  have s1: "0 \<le> r" if "0 \<le> x"
  proof -
    have "0 \<le> y" using that u by (simp add: y_def)
    then have "roundEven 0 \<le> roundEven y" by (rule roundEven_mono)
    then show ?thesis using u by (simp add: r_def)
  qed
  have s2: "r \<le> 0" if "x \<le> 0"
  proof -
    have "y \<le> 0" using that u by (simp add: y_def field_simps)
    then have "roundEven y \<le> roundEven 0" by (rule roundEven_mono)
    then show ?thesis using u by (simp add: r_def mult_le_0_iff)
  qed
  show ?thesis using fin rb s1 s2 by blast
qed

lemma toDouble_repr:
  assumes "isDouble d"
  shows "toDouble d = Fin d"
proof -
  obtain K where K: "d = of_int K * ulp d" using ulp_divides [OF assms, of d] by auto
  have u: "0 < ulp d" by (rule ulp_pos)
  have "d / ulp d = of_int K" using K u by (metis nonzero_mult_div_cancel_right less_irrefl)
  then have "roundEven (d / ulp d) = K" by (simp add: roundEven_of_int)
  then show ?thesis
    using isDouble_bound [OF assms] K unfolding toDouble_def Let_def by simp
qed

lemma toDouble_ge_pow_aux:
  assumes "- 1022 \<le> E" "2 powr (of_int E) \<le> x"
  shows "2 powr (of_int E) \<le> of_int (roundEven (x / ulp x)) * ulp x"
proof -
  have xp: "0 < x" using assms(2) by (smt (verit) powr_gt_zero)
  have "binade (2 powr (of_int E)) = E"
    using assms(1) by (intro binade_eqI) (simp_all)
  then have b: "E \<le> binade x" using binade_mono [of "2 powr (of_int E)" x] assms(2) by simp
  have "(2::real) powr (- 1022) \<le> 2 powr (of_int E)" using assms(1) by simp
  then have "2 powr (- 1022) \<le> \<bar>x\<bar>" using assms(2) by linarith
  then have "2 ^ 52 \<le> \<bar>x\<bar> / ulp x" by (rule mant_lower)
  then have "of_int (2 ^ 52) \<le> x / ulp x" using xp by simp
  then have "roundEven (of_int (2 ^ 52)) \<le> roundEven (x / ulp x)" by (rule roundEven_mono)
  then have "2 ^ 52 \<le> roundEven (x / ulp x)" unfolding roundEven_of_int .
  then have "(2::real) ^ 52 \<le> of_int (roundEven (x / ulp x))" by (rule int_le_real)
  then have "2 ^ 52 * ulp x \<le> of_int (roundEven (x / ulp x)) * ulp x"
    using ulp_pos [of x] by (simp add: mult_right_mono)
  moreover have "2 ^ 52 * ulp x = 2 powr (of_int (binade x))"
    unfolding ulp_def by (rule powr_split52 [symmetric])
  moreover have "(2::real) powr (of_int E) \<le> 2 powr (of_int (binade x))" using b by simp
  ultimately show ?thesis by linarith
qed

lemma toDouble_ge_pow:
  assumes "- 1022 \<le> E" "2 powr (of_int E) \<le> x"
  shows "Fin (2 powr (of_int E)) \<le> toDouble x"
proof -
  have "0 < x" using assms(2) by (smt (verit) powr_gt_zero)
  then show ?thesis
    using toDouble_ge_pow_aux [OF assms] unfolding toDouble_def Let_def by simp
qed


lemma isDoubleI:
  "d = of_int k * 2 powr (of_int e) \<Longrightarrow> \<bar>k\<bar> < 2 ^ 53 \<Longrightarrow> - 1074 \<le> e \<Longrightarrow> e \<le> 971 \<Longrightarrow> isDouble d"
  unfolding isDouble_def by blast

lemma toDouble_exact:
  "d = of_int k * 2 powr (of_int e) \<Longrightarrow> \<bar>k\<bar> < 2 ^ 53 \<Longrightarrow> - 1074 \<le> e \<Longrightarrow> e \<le> 971 \<Longrightarrow> toDouble d = Fin d"
  by (rule toDouble_repr) (rule isDoubleI)

lemma toDouble_near:
  assumes "- 1022 \<le> E" "2 powr (of_int E) \<le> \<bar>x\<bar>" "\<bar>x\<bar> < 2 powr (of_int E + 1)"
    and "\<bar>x / 2 powr (of_int E - 52) - of_int k\<bar> < 1 / 2"
    and "\<bar>of_int k * 2 powr (of_int E - 52)\<bar> < (2::real) ^ 1024"
  shows "toDouble x = Fin (of_int k * 2 powr (of_int E - 52))"
  by (rule toDouble_nearI [OF binade_eqI [OF assms(1-3)] assms(4,5)])

lemma toDouble_one [simp]: "toDouble 1 = Fin 1"
  using toDouble_exact [of 1 1 0] by simp

lemma toDouble_dyadic:
  assumes "\<bar>k\<bar> < 2 ^ 53" "n \<le> 1074"
  shows "toDouble (of_int k / 2 ^ n) = Fin (of_int k / 2 ^ n)"
proof -
  have "(2::real) powr (of_int (- int n)) = 1 / 2 ^ n"
    by (simp add: powr_minus powr_realpow divide_inverse)
  then have "real_of_int k / 2 ^ n = of_int k * 2 powr (of_int (- int n))" by simp
  then show ?thesis using assms by (intro toDouble_exact [of _ k "- int n"]) simp_all
qed

lemma toDouble_numeral [simp]:
  "numeral n < (2::int) ^ 53 \<Longrightarrow> toDouble (numeral n) = Fin (numeral n)"
  using toDouble_exact [of "numeral n" "numeral n" 0] by simp

lemma toDouble_neg_numeral [simp]:
  "numeral n < (2::int) ^ 53 \<Longrightarrow> toDouble (- numeral n) = Fin (- numeral n)"
  using toDouble_exact [of "- numeral n" "- numeral n" 0] by simp

lemma toDouble_neg_one [simp]: "toDouble (- 1) = Fin (- 1)"
  using toDouble_exact [of "- 1" "- 1" 0] by simp


lemma toDouble_nonneg:
  assumes "0 \<le> x"
  shows "toDouble x = PInf \<or> (\<exists>r. toDouble x = Fin r \<and> 0 \<le> r)"
proof -
  have "0 \<le> x / ulp x" using assms ulp_pos [of x] by simp
  then have "roundEven 0 \<le> roundEven (x / ulp x)" by (rule roundEven_mono)
  then have r: "0 \<le> of_int (roundEven (x / ulp x)) * ulp x" using ulp_pos [of x] by simp
  show ?thesis
  proof (cases "x = 0")
    case True then show ?thesis by simp
  next
    case False
    then have "0 < x" using assms by simp
    then show ?thesis using r unfolding toDouble_def Let_def by auto
  qed
qed

lemma toDouble_rel:
  assumes "2 powr (- 1022) \<le> \<bar>x\<bar>" "toDouble x = Fin r"
  shows "\<bar>r - x\<bar> \<le> \<bar>x\<bar> / 2 ^ 53"
proof -
  define y where "y = x / ulp x"
  have u: "0 < ulp x" by (rule ulp_pos)
  have r: "r = of_int (roundEven y) * ulp x"
    using assms(2) unfolding toDouble_def Let_def y_def by (simp split: if_splits)
  have "\<bar>of_int (roundEven y) - y\<bar> \<le> 1 / 2"
    using roundEven_bounds [of y] by linarith
  then have "\<bar>of_int (roundEven y) - y\<bar> * ulp x \<le> 1 / 2 * ulp x"
    using u by (intro mult_right_mono) simp_all
  moreover have "\<bar>of_int (roundEven y) - y\<bar> * ulp x = \<bar>r - x\<bar>"
  proof -
    have "r - x = (of_int (roundEven y) - y) * ulp x"
      using u by (simp add: r y_def algebra_simps)
    then show ?thesis using u by (simp add: abs_mult)
  qed
  moreover have "2 ^ 52 * ulp x \<le> \<bar>x\<bar>"
    using mant_lower [OF assms(1)] u by (simp add: field_simps)
  ultimately show ?thesis by simp
qed



text \<open>The denominator of the rebound, as a double: infinite, or at least 1.\<close>

lemma rebound_denominator:
  assumes "0 < H"
  shows "fadd (fdiv \<bar>Fin v\<bar> (Fin H)) (Fin 1) = PInf \<or>
         (\<exists>q d. toDouble (\<bar>v\<bar> / H) = Fin q \<and> 0 \<le> q \<and> toDouble (q + 1) = Fin d \<and> 1 \<le> d \<and>
                fadd (fdiv \<bar>Fin v\<bar> (Fin H)) (Fin 1) = Fin d)"
proof -
  have H0: "H \<noteq> 0" using assms by simp
  have "0 \<le> \<bar>v\<bar> / H" using assms by simp
  from toDouble_nonneg [OF this] show ?thesis
  proof
    assume "toDouble (\<bar>v\<bar> / H) = PInf"
    then show ?thesis using H0 by simp
  next
    assume "\<exists>r. toDouble (\<bar>v\<bar> / H) = Fin r \<and> 0 \<le> r"
    then obtain q where q: "toDouble (\<bar>v\<bar> / H) = Fin q" "0 \<le> q" by blast
    have "Fin (2 powr (of_int 0)) \<le> toDouble (q + 1)"
      using q(2) by (intro toDouble_ge_pow) simp_all
    then have ge: "Fin 1 \<le> toDouble (q + 1)" by simp
    show ?thesis
    proof (cases "toDouble (q + 1)")
      case (Fin d)
      then show ?thesis using q ge H0 by simp
    next
      case PInf
      then show ?thesis using q H0 by simp
    next
      case NInf
      then show ?thesis using ge by simp
    next
      case NaN
      then show ?thesis using ge by simp
    qed
  qed
qed


lemma toDouble_lower:
  assumes "1 \<le> x" "toDouble x = Fin r"
  shows "x * (1 - 1 / 2 ^ 53) \<le> r"
proof -
  have "2 powr (- 1022) \<le> (1::real)" by (simp add: powr_neg_numeral)
  then have "2 powr (- 1022) \<le> \<bar>x\<bar>" using assms(1) by linarith
  from toDouble_rel [OF this assms(2)] have "\<bar>r - x\<bar> \<le> x / 2 ^ 53" using assms(1) by simp
  then have "x - x / 2 ^ 53 \<le> r" by linarith
  then show ?thesis by (simp add: algebra_simps)
qed

lemma rounding_slack:
  fixes u :: real
  assumes "u = 1 / 2 ^ 53"
  shows "1 + u \<le> (1 + 4 * u) * ((1 - u) * (1 - u))"
  unfolding assms by simp

lemma reboundVel64_bound:
  assumes "halfReboundVel m = Fin H" and "isDouble H" and "2 powr (- 1022) \<le> H" and "isDouble v"
  shows "\<exists>r. reboundVel64 m (Fin v) = Fin r \<and> \<bar>r\<bar> \<le> H * (1 + 1 / 2 ^ 51)"
proof -
  have H0: "0 < H" using assms(3) by (smt (verit) powr_gt_zero)
  define u :: real where "u = 1 / 2 ^ 53"
  have u4: "1 + 1 / 2 ^ 51 = 1 + 4 * u" by (simp add: u_def)
  from rebound_denominator [OF H0, of v] show ?thesis
  proof
    assume "fadd (fdiv \<bar>Fin v\<bar> (Fin H)) (Fin 1) = PInf"
    then have "reboundVel64 m (Fin v) = Fin 0" by (simp add: reboundVel64_def assms(1))
    then show ?thesis using H0 by simp
  next
    assume "\<exists>q d. toDouble (\<bar>v\<bar> / H) = Fin q \<and> 0 \<le> q \<and> toDouble (q + 1) = Fin d \<and> 1 \<le> d \<and>
                fadd (fdiv \<bar>Fin v\<bar> (Fin H)) (Fin 1) = Fin d"
    then obtain q d where q: "toDouble (\<bar>v\<bar> / H) = Fin q" "0 \<le> q"
      and d: "toDouble (q + 1) = Fin d" "1 \<le> d" "fadd (fdiv \<bar>Fin v\<bar> (Fin H)) (Fin 1) = Fin d"
      by blast
    define x where "x = - v / d"
    have eq: "reboundVel64 m (Fin v) = toDouble x"
      using d by (simp add: reboundVel64_def assms(1) x_def)
    have ax: "\<bar>x\<bar> = \<bar>v\<bar> / d" using d(2) by (simp add: x_def)
    show ?thesis
    proof (cases "\<bar>x\<bar> \<le> H")
      case True
      then have "\<bar>x\<bar> \<le> \<bar>H\<bar>" using H0 by simp
      from toDouble_abs_le [OF assms(2) this] obtain r where "toDouble x = Fin r" "\<bar>r\<bar> \<le> \<bar>H\<bar>"
        by blast
      moreover have "H \<le> H * (1 + 1 / 2 ^ 51)" using H0 by simp
      ultimately show ?thesis using eq H0 by auto
    next
      case False
      then have big: "H < \<bar>v\<bar> / d" using ax by simp
      then have "H * d < \<bar>v\<bar>" using d(2) by (simp add: field_simps)
      moreover have "H \<le> H * d" using mult_left_mono [of 1 d H] d(2) H0 by simp
      ultimately have "H \<le> \<bar>v\<bar>" by linarith
      then have vH: "1 \<le> \<bar>v\<bar> / H" using H0 by (simp add: field_simps)
      have ql: "\<bar>v\<bar> / H * (1 - u) \<le> q"
        unfolding u_def by (rule toDouble_lower [OF vH q(1)])
      have "1 \<le> q + 1" using q(2) by simp
      then have dl: "(q + 1) * (1 - u) \<le> d"
        unfolding u_def by (rule toDouble_lower [OF _ d(1)])
      have u1: "0 \<le> 1 - u" by (simp add: u_def)
      have "\<bar>v\<bar> / H * (1 - u) * (1 - u) \<le> (q + 1) * (1 - u)"
        using ql u1 by (intro mult_right_mono) simp_all
      then have dlow: "\<bar>v\<bar> / H * ((1 - u) * (1 - u)) \<le> d" using dl by (simp add: mult.assoc)
      have "\<bar>x\<bar> \<le> \<bar>v\<bar>"
      proof -
        have "1 * \<bar>v\<bar> \<le> d * \<bar>v\<bar>" using d(2) by (intro mult_right_mono) simp_all
        then show ?thesis unfolding ax using d(2) by (simp add: field_simps)
      qed
      from toDouble_abs_le [OF assms(4) this] obtain r where r: "toDouble x = Fin r" by blast
      have "2 powr (- 1022) \<le> \<bar>x\<bar>" using assms(3) big ax by simp
      from toDouble_rel [OF this r] have "\<bar>r - x\<bar> \<le> \<bar>x\<bar> * u" by (simp add: u_def)
      then have "\<bar>r\<bar> \<le> \<bar>x\<bar> + \<bar>x\<bar> * u" by linarith
      then have "\<bar>r\<bar> \<le> \<bar>x\<bar> * (1 + u)" by (simp add: algebra_simps)
      also have "\<dots> = \<bar>v\<bar> * (1 + u) / d" by (simp add: ax)
      also have "\<dots> \<le> H * (1 + 4 * u)"
      proof -
        have "\<bar>v\<bar> * (1 + u) \<le> \<bar>v\<bar> * ((1 + 4 * u) * ((1 - u) * (1 - u)))"
          by (intro mult_left_mono rounding_slack) (simp_all add: u_def)
        also have "\<dots> = H * (1 + 4 * u) * (\<bar>v\<bar> / H * ((1 - u) * (1 - u)))"
          using H0 by simp
        also have "\<dots> \<le> H * (1 + 4 * u) * d"
          using dlow H0 by (intro mult_left_mono) (simp_all add: u_def)
        finally show ?thesis using d(2) by (simp add: field_simps)
      qed
      finally have "\<bar>r\<bar> \<le> H * (1 + 1 / 2 ^ 51)" unfolding u4 .
      then show ?thesis unfolding eq r by blast
    qed
  qed
qed

lemma isDouble_grid:
  assumes "isDouble d"
  shows "\<exists>K. d = of_int K * 2 powr (- 1074)"
proof -
  obtain k e where d: "d = of_int k * 2 powr (of_int e)" and e: "- 1074 \<le> e"
    using assms unfolding isDouble_def by blast
  define n where "n = e + 1074"
  have n: "0 \<le> n" using e by (simp add: n_def)
  have "(2::real) powr (of_int e) = 2 powr (of_int n) * 2 powr (- 1074)"
    unfolding n_def powr_add [symmetric] by simp
  also have "(2::real) powr (of_int n) = of_int (2 ^ nat n)" using n by (rule powr_int_nonneg)
  finally have "d = of_int (k * 2 ^ nat n) * 2 powr (- 1074)" by (simp add: d)
  then show ?thesis by blast
qed

lemma toDouble_pos:
  assumes "2 powr (- 1074) \<le> x"
  shows "Fin 0 < toDouble x"
proof (cases "2 powr (- 1022) \<le> x")
  case True
  then have "Fin (2 powr (of_int (- 1022))) \<le> toDouble x"
    by (intro toDouble_ge_pow) simp_all
  then show ?thesis by (cases "toDouble x") (simp_all add: order_less_le_trans [of 0 "2 powr - 1022"])
next
  case False
  have xp: "0 < x" using assms by (smt (verit) powr_gt_zero)
  have small: "\<bar>x\<bar> < 2 powr (- 1022)" using False xp by simp
  then have u: "ulp x = 2 powr (- 1074)" by (simp add: ulp_def binade_small)
  have "1 \<le> x / ulp x" using assms unfolding u by (simp add: field_simps)
  then have "roundEven (of_int 1) \<le> roundEven (x / ulp x)" by (intro roundEven_mono) simp
  then have "1 \<le> roundEven (x / ulp x)" unfolding roundEven_of_int .
  then have "1 \<le> real_of_int (roundEven (x / ulp x))" by linarith
  then have r: "0 < of_int (roundEven (x / ulp x)) * ulp x"
    using ulp_pos [of x] by (intro mult_pos_pos) linarith+
  show ?thesis using r xp unfolding toDouble_def Let_def by simp
qed

lemma fsub_nonneg_iff:
  assumes "isDouble t" "isDouble s"
  shows "Fin 0 \<le> fsub (Fin t) (Fin s) \<longleftrightarrow> s \<le> t"
proof
  assume "s \<le> t"
  then have "0 \<le> t - s" by simp
  from toDouble_nonneg [OF this] show "Fin 0 \<le> fsub (Fin t) (Fin s)" by auto
next
  assume a: "Fin 0 \<le> fsub (Fin t) (Fin s)"
  show "s \<le> t"
  proof (rule ccontr)
    assume "\<not> s \<le> t"
    then have lt: "0 < s - t" by simp
    obtain K L where K: "t = of_int K * 2 powr (- 1074)" and L: "s = of_int L * 2 powr (- 1074)"
      using isDouble_grid [OF assms(1)] isDouble_grid [OF assms(2)] by blast
    have st: "s - t = of_int (L - K) * 2 powr (- 1074)" by (simp add: K L algebra_simps)
    then have "0 < real_of_int (L - K)" using lt by (simp add: zero_less_mult_iff)
    then have "0 < L - K" by (simp only: of_int_0_less_iff)
    then have "1 \<le> L - K" by simp
    then have "1 \<le> real_of_int (L - K)" by (simp only: of_int_1_le_iff)
    then have "1 * 2 powr (- 1074) \<le> real_of_int (L - K) * 2 powr (- 1074)"
      by (intro mult_right_mono) simp_all
    then have "2 powr (- 1074) \<le> s - t" using st by simp
    from toDouble_pos [OF this] have "Fin 0 < toDouble (- (t - s))" by simp
    then have "\<not> Fin 0 \<le> toDouble (t - s)"
      unfolding toDouble_minus by (cases "toDouble (t - s)") simp_all
    then show False using a by simp
  qed
qed

section \<open>The rebound function\<close>

lemma reboundVel_Fin:
  "halfReboundVel m = Fin H \<Longrightarrow> 0 < H \<Longrightarrow>
   reboundVel m (Fin h) = Fin (- h / (\<bar>h\<bar> / H + 1))"
  by (simp add: reboundVel_def add_nonneg_eq_0_iff)

lemma rebound_real_bounds:
  fixes h H :: real
  assumes "0 < H"
  shows "\<bar>- h / (\<bar>h\<bar> / H + 1)\<bar> \<le> \<bar>h\<bar>"
    and "h \<noteq> 0 \<Longrightarrow> \<bar>- h / (\<bar>h\<bar> / H + 1)\<bar> < \<bar>h\<bar>"
    and "\<bar>- h / (\<bar>h\<bar> / H + 1)\<bar> < H"
    and "sgn (- h / (\<bar>h\<bar> / H + 1)) = - sgn h"
proof -
  have d: "1 \<le> \<bar>h\<bar> / H + 1" using assms by simp
  then have d0: "0 < \<bar>h\<bar> / H + 1" by linarith
  have eq: "\<bar>- h / (\<bar>h\<bar> / H + 1)\<bar> = \<bar>h\<bar> / (\<bar>h\<bar> / H + 1)"
    using d0 by (simp add:)
  show "\<bar>- h / (\<bar>h\<bar> / H + 1)\<bar> \<le> \<bar>h\<bar>"
    unfolding eq using frac_le [of "\<bar>h\<bar>" "\<bar>h\<bar>" 1 "\<bar>h\<bar> / H + 1"] d by simp
  show "\<bar>- h / (\<bar>h\<bar> / H + 1)\<bar> < \<bar>h\<bar>" if "h \<noteq> 0"
  proof -
    have "1 < \<bar>h\<bar> / H + 1" using that assms by simp
    then show ?thesis unfolding eq
      using frac_less2 [of "\<bar>h\<bar>" "\<bar>h\<bar>" 1 "\<bar>h\<bar> / H + 1"] that by simp
  qed
  show "\<bar>- h / (\<bar>h\<bar> / H + 1)\<bar> < H"
  proof -
    have "\<bar>h\<bar> < H * (\<bar>h\<bar> / H + 1)" using assms by (simp add: field_simps)
    then show ?thesis unfolding eq using d0 by (simp add: field_simps)
  qed
  show "sgn (- h / (\<bar>h\<bar> / H + 1)) = - sgn h"
    using d0 by (simp add: sgn_real_def field_simps)
qed






text \<open>
  Claim C10, as stated, fails in the arithmetic of doubles. With the half-rebound speed 1000
  and \<open>v\<close> the double \<open>10 ^ 20\<close>, the quotient \<open>|v| / 1000\<close> is \<open>10 ^ 17\<close>, adding 1 to it rounds
  to \<open>10 ^ 17\<close>, and the rebound is \<open>- 1000\<close>: of magnitude \<open>H\<close>, not below it.
\<close>

theorem reboundVel_reaches_half_counterexample:
  "halfReboundVel demoMotion = Fin 1000 \<and>
   reboundVel64 demoMotion (Fin 100000000000000000000) = Fin (- 1000) \<and>
   \<not> \<bar>reboundVel64 demoMotion (Fin 100000000000000000000)\<bar> < Fin 1000"
proof -
  have t1: "toDouble 100000000000000000 = Fin 100000000000000000"
    using toDouble_exact [of 100000000000000000 762939453125 17] by simp
  have t2: "toDouble 100000000000000001 = Fin 100000000000000000"
    using toDouble_near [of 56 100000000000000001 6250000000000000] by simp
  have t3: "toDouble (- 1000) = Fin (- 1000)"
    using toDouble_exact [of "- 1000" "- 1000" 0] by simp
  show ?thesis
    by (simp add: reboundVel64_def demoMotion_def t1 t2 t3)
qed

text \<open>
  Claim C10, amended. For a half-rebound speed \<open>H > 0\<close> and every finite \<open>w\<close>, the exact
  magnitude of the rebound is \<open>|w| / (|w| / H + 1)\<close>, which is strictly below \<open>H\<close>. For a
  normal double \<open>H\<close> and a double \<open>v\<close>, the rebound that the code computes is a double of
  magnitude at most \<open>H * (1 + 1 / 2 ^ 51)\<close>: it can reach \<open>H\<close> and pass it by the rounding of
  the three operations.
\<close>

theorem reboundVel_below_half:
  assumes "halfReboundVel m = Fin H" and "0 < H"
  shows "\<bar>reboundVel m (Fin w)\<bar> = \<bar>Fin w\<bar> / (\<bar>Fin w\<bar> / Fin H + Fin 1) \<and>
         \<bar>reboundVel m (Fin w)\<bar> < Fin H \<and>
         (isDouble H \<and> 2 powr (- 1022) \<le> H \<and> isDouble v \<longrightarrow>
            (\<exists>r. reboundVel64 m (Fin v) = Fin r \<and> \<bar>r\<bar> \<le> H * (1 + 1 / 2 ^ 51)))"
proof -
  have d0: "0 < \<bar>w\<bar> / H + 1" using assms(2) by (simp add: add_nonneg_pos)
  then have "\<bar>w\<bar> / H + 1 \<noteq> 0" "H \<noteq> 0" using assms(2) by simp_all
  then have exact: "\<bar>reboundVel m (Fin w)\<bar> = \<bar>Fin w\<bar> / (\<bar>Fin w\<bar> / Fin H + Fin 1) \<and>
         \<bar>reboundVel m (Fin w)\<bar> < Fin H"
    using rebound_real_bounds(3) [OF assms(2), of w] d0
    by (simp add: reboundVel_Fin [OF assms])
  have dbl: "\<exists>r. reboundVel64 m (Fin v) = Fin r \<and> \<bar>r\<bar> \<le> H * (1 + 1 / 2 ^ 51)"
    if "isDouble H" "2 powr (- 1022) \<le> H" "isDouble v"
    by (rule reboundVel64_bound [OF assms(1) that])
  show ?thesis using exact dbl by blast
qed

theorem reboundVel_below_half_witness:
  "halfReboundVel demoMotion = Fin 1000 \<and> (0::real) < 1000 \<and>
   isDouble 1000 \<and> 2 powr (- 1022) \<le> (1000::real) \<and> isDouble 4000 \<and>
   \<bar>reboundVel demoMotion (Fin 4000)\<bar> < Fin 1000 \<and>
   (\<exists>r. reboundVel64 demoMotion (Fin 4000) = Fin r \<and> \<bar>r\<bar> \<le> 1000 * (1 + 1 / 2 ^ 51))"
proof -
  have d: "isDouble 1000" "isDouble 4000"
    using isDoubleI [of 1000 1000 0] isDoubleI [of 4000 4000 0] by simp_all
  have n: "2 powr (- 1022) \<le> (1000::real)" by (simp add: powr_neg_numeral)
  have h: "halfReboundVel demoMotion = Fin 1000" by (simp add: demoMotion_def)
  from reboundVel_below_half [OF h, of 4000 4000] d n h
  show ?thesis by simp
qed


section \<open>The pointer tracker\<close>

text \<open>
  Claim C5, as stated, fails where the raw velocity is zero and the current estimate is not:
  the signs differ, yet the result is the average, half the estimate, and not the raw
  velocity.
\<close>

theorem timeAvVel_zero_raw_counterexample:
  "isFinite (Fin 0 / Fin 100 * Fin 1000) \<and> \<not> Fin 100 > Fin 300 \<and> isFinite (Fin 10) \<and>
   js_sign (Fin 0 / Fin 100 * Fin 1000) \<noteq> js_sign (Fin 10) \<and>
   timeAvVel demoTracker (Fin 10) (Fin 0) (Fin 100) = Fin 5 \<and>
   timeAvVel demoTracker (Fin 10) (Fin 0) (Fin 100) \<noteq> Fin 0 / Fin 100 * Fin 1000"
  by (simp add: timeAvVel_def demoTracker_def newMouseTracker_def)

lemma timeAvVel_blendVel:
  "sampleExpireTime tr = Fin 300 \<Longrightarrow>
   timeAvVel tr c d dt = blendVel c (d / dt * Fin 1000) dt"
  unfolding timeAvVel_def blendVel_def Let_def by auto

lemma updateMouseMotion_fst:
  "fst (updateMouseMotion tr now rectX rectY dX dY timeStamp) =
     tr\<lparr> nowAtSample := now,
         velX := timeAvVel tr (velX tr) dX (timeStamp - lastTimeStamp tr),
         velY := timeAvVel tr (velY tr) dY (timeStamp - lastTimeStamp tr),
         lastTimeStamp := timeStamp,
         posX := clientX tr - rectX - offsetX tr,
         posY := clientY tr - rectY - offsetY tr \<rparr>"
  by (simp add: updateMouseMotion_def Let_def)

text \<open>
  Claim C5, amended. On each axis an update with displacement \<open>d\<close> and elapsed time \<open>dt\<close>
  gives, for the raw velocity \<open>r = d / dt * 1000\<close> and the current estimate \<open>c\<close>: 0 if \<open>r\<close> is
  not finite; else \<open>r\<close> if \<open>dt\<close> exceeds 300; else \<open>r\<close> if \<open>c\<close> is not finite, or \<open>c\<close> is 0, or
  \<open>r\<close> and \<open>c\<close> have strictly opposite signs; else the average \<open>(c + r) / 2\<close>.
\<close>

theorem timeAvVel_rule:
  assumes "sampleExpireTime tr = Fin 300"
  shows "velX (fst (updateMouseMotion tr now rectX rectY dX dY timeStamp)) =
           blendVel (velX tr) (dX / (timeStamp - lastTimeStamp tr) * Fin 1000)
             (timeStamp - lastTimeStamp tr) \<and>
         velY (fst (updateMouseMotion tr now rectX rectY dX dY timeStamp)) =
           blendVel (velY tr) (dY / (timeStamp - lastTimeStamp tr) * Fin 1000)
             (timeStamp - lastTimeStamp tr)"
  unfolding updateMouseMotion_fst by (simp add: timeAvVel_blendVel [OF assms])


theorem timeAvVel_rule_witness:
  "sampleExpireTime (demoTracker\<lparr> velX := Fin 100, lastTimeStamp := Fin 0 \<rparr>) = Fin 300 \<and>
   velX (fst (updateMouseMotion (demoTracker\<lparr> velX := Fin 100, lastTimeStamp := Fin 0 \<rparr>)
                (Fin 0) (Fin 0) (Fin 0) (Fin 3) (Fin 0) (Fin 10))) = Fin 200 \<and>
   velY (fst (updateMouseMotion (demoTracker\<lparr> velX := Fin 100, lastTimeStamp := Fin 0 \<rparr>)
                (Fin 0) (Fin 0) (Fin 0) (Fin 3) (Fin 0) (Fin 10))) = Fin 0"
  using timeAvVel_rule [of "demoTracker\<lparr> velX := Fin 100, lastTimeStamp := Fin 0 \<rparr>"
                           "Fin 0" "Fin 0" "Fin 0" "Fin 3" "Fin 0" "Fin 10"]
  by (simp add: demoTracker_def newMouseTracker_def blendVel_def minus_jsnum_def)

text \<open>
  Claim C8. A mouse-move or mouse-over event whose client coordinates are both equal to the
  stored ones leaves the tracker as it is (velocities, positions, client coordinates and
  time stamps) and does not call the position handler.
\<close>

theorem duplicate_client_pos_ignored:
  assumes "js_seq (clientX tr) (ev_clientX ev)" and "js_seq (clientY tr) (ev_clientY ev)"
  shows "updateToClientPos tr now rectX rectY ev = (tr, 0) \<and>
         updateFromMouseMove tr now rectX rectY ev = (tr, 0) \<and>
         updateFromMouseOver tr now rectX rectY ev = (tr, 0)"
  using assms
  by (simp add: updateFromMouseMove_def updateFromMouseOver_def updateToClientPos_def Let_def)

theorem duplicate_client_pos_ignored_witness:
  "js_seq (clientX (demoTracker\<lparr> clientX := Fin 5, clientY := Fin 7 \<rparr>))
          (ev_clientX \<lparr> ev_clientX = Fin 5, ev_clientY = Fin 7, ev_timeStamp = Fin 20 \<rparr>) \<and>
   js_seq (clientY (demoTracker\<lparr> clientX := Fin 5, clientY := Fin 7 \<rparr>))
          (ev_clientY \<lparr> ev_clientX = Fin 5, ev_clientY = Fin 7, ev_timeStamp = Fin 20 \<rparr>) \<and>
   updateFromMouseMove (demoTracker\<lparr> clientX := Fin 5, clientY := Fin 7 \<rparr>) (Fin 1000) (Fin 0) (Fin 0)
     \<lparr> ev_clientX = Fin 5, ev_clientY = Fin 7, ev_timeStamp = Fin 20 \<rparr> =
   (demoTracker\<lparr> clientX := Fin 5, clientY := Fin 7 \<rparr>, 0)"
  using duplicate_client_pos_ignored
          [of "demoTracker\<lparr> clientX := Fin 5, clientY := Fin 7 \<rparr>"
              "\<lparr> ev_clientX = Fin 5, ev_clientY = Fin 7, ev_timeStamp = Fin 20 \<rparr>"
              "Fin 1000" "Fin 0" "Fin 0"]
  by simp

section \<open>The button\<close>

text \<open>
  Claim C6. While the immunity flag is set, hit detection registers no hit and leaves both
  motion engines as they are, whatever the pointer position and velocity.
\<close>

theorem immune_detectHit_no_effect:
  assumes "hitImmune b"
  shows "detectHit b now random = Inr (b\<lparr> hit := False \<rparr>) \<and>
         motionX (b\<lparr> hit := False \<rparr>) = motionX b \<and>
         motionY (b\<lparr> hit := False \<rparr>) = motionY b"
  using assms by (simp add: detectHit_def Let_def)

theorem immune_detectHit_no_effect_witness:
  "hitImmune (demoButton\<lparr> hitImmune := True, mouseTracker := demoTracker\<lparr> posX := Fin 60, posY := Fin 60 \<rparr> \<rparr>) \<and>
   detectHit (demoButton\<lparr> hitImmune := True, mouseTracker := demoTracker\<lparr> posX := Fin 60, posY := Fin 60 \<rparr> \<rparr>)
     (Fin 1000) (Fin 0) =
   Inr (demoButton\<lparr> hitImmune := True, mouseTracker := demoTracker\<lparr> posX := Fin 60, posY := Fin 60 \<rparr>,
                    hit := False \<rparr>)"
  using immune_detectHit_no_effect
          [of "demoButton\<lparr> hitImmune := True, mouseTracker := demoTracker\<lparr> posX := Fin 60, posY := Fin 60 \<rparr> \<rparr>"
              "Fin 1000" "Fin 0"]
  by simp

section \<open>One pass of the update loop\<close>
















section \<open>Activation\<close>









section \<open>Termination of the update loop\<close>





















section \<open>Updates\<close>






section \<open>Sequences of calls\<close>


lemma setVel_Inr:
  assumes "setVel m t v = Inr m'"
  shows "m' = m\<lparr> trajStartGlobalTime := Some t, initVel := v, vel := v \<rparr>"
    "isFinite t" "isFinite v"
  using assms
  by (auto simp: setVel_def checkRange_finite split: sum.splits if_splits)





section \<open>Updates in double precision\<close>

lemma updatePass64_NewTraj:
  assumes "updatePass64 m T = NewTraj m' T'"
  shows "halfReboundVel m' = halfReboundVel m" "accel m' = accel m" "upperPos m' = upperPos m"
    "pos m' = pos m" "vel m' = vel m"
    "trajStartGlobalTime m' = Some (fadd (toNumber (trajStartGlobalTime m)) (passHitTime64 m T))"
  using assms unfolding updatePass64_def passHitTime64_def Let_def
  by (auto split: if_splits)



lemma update64_Inl:
  "update64 m t = Some (Inl e) \<longleftrightarrow>
     e = RangeError \<and> \<not> Fin 0 \<le> fsub t (toNumber (trajStartGlobalTime m))"
  by (cases "updateLoop64 m (fsub t (toNumber (trajStartGlobalTime m)))")
     (auto simp add: update64_def Let_def)

lemma update64_Inr:
  "update64 m t = Some (Inr m') \<longleftrightarrow>
     Fin 0 \<le> fsub t (toNumber (trajStartGlobalTime m)) \<and>
     updateLoop64 m (fsub t (toNumber (trajStartGlobalTime m))) = Some m'"
  by (cases "updateLoop64 m (fsub t (toNumber (trajStartGlobalTime m)))")
     (auto simp add: update64_def Let_def)



lemma runCalls64_append:
  "runCalls64 m (cs @ ds) =
     (case runCalls64 m cs of Some (Inr m') \<Rightarrow> runCalls64 m' ds | r \<Rightarrow> r)"
  by (induction cs arbitrary: m) (auto split: option.splits sum.splits)


lemma updateLoop64_hitTimes:
  assumes "updateLoop64 m T = Some m'"
  shows "\<exists>hs. hitTimes64 m T = Some hs \<and>
     trajStartGlobalTime m' =
       (if hs = [] then trajStartGlobalTime m
        else Some (foldl fadd (toNumber (trajStartGlobalTime m)) hs))"
proof (rule updateLoop64.raw_induct
    [where P = "\<lambda>m T m'. \<exists>hs. hitTimes64 m T = Some hs \<and>
       trajStartGlobalTime m' =
         (if hs = [] then trajStartGlobalTime m
          else Some (foldl fadd (toNumber (trajStartGlobalTime m)) hs))", OF _ assms])
  fix loop m T y
  assume IH: "\<And>m T y. loop m T = Some y \<Longrightarrow> \<exists>hs. hitTimes64 m T = Some hs \<and>
       trajStartGlobalTime y =
         (if hs = [] then trajStartGlobalTime m
          else Some (foldl fadd (toNumber (trajStartGlobalTime m)) hs))"
    and step: "(case updatePass64 m T of NewTraj m' T' \<Rightarrow> loop m' T'
                | Done p v \<Rightarrow> Some (m\<lparr>pos := p, vel := v\<rparr>)) = Some y"
  show "\<exists>hs. hitTimes64 m T = Some hs \<and>
       trajStartGlobalTime y =
         (if hs = [] then trajStartGlobalTime m
          else Some (foldl fadd (toNumber (trajStartGlobalTime m)) hs))"
  proof (cases "updatePass64 m T")
    case (NewTraj m1 T1)
    then have "loop m1 T1 = Some y" using step by simp
    from IH [OF this] obtain hs where hs: "hitTimes64 m1 T1 = Some hs"
      "trajStartGlobalTime y =
         (if hs = [] then trajStartGlobalTime m1
          else Some (foldl fadd (toNumber (trajStartGlobalTime m1)) hs))" by blast
    have s1: "trajStartGlobalTime m1 =
        Some (fadd (toNumber (trajStartGlobalTime m)) (passHitTime64 m T))"
      by (rule updatePass64_NewTraj(6) [OF NewTraj])
    have "hitTimes64 m T = Some (passHitTime64 m T # hs)"
      by (subst hitTimes64.simps) (simp add: NewTraj hs(1))
    moreover have "trajStartGlobalTime y =
        Some (foldl fadd (toNumber (trajStartGlobalTime m)) (passHitTime64 m T # hs))"
      using hs(2) s1 by simp
    ultimately show ?thesis by simp
  next
    case (Done p v)
    then have "y = m\<lparr>pos := p, vel := v\<rparr>" using step by simp
    moreover have "hitTimes64 m T = Some []"
      by (subst hitTimes64.simps) (simp add: Done)
    ultimately show ?thesis by simp
  qed
qed

lemma update64_returns:
  assumes "update64 m t = Some (Inr m')"
  shows "\<exists>s hs. trajStartGlobalTime m = Some s \<and> hitTimes64 m (fsub t s) = Some hs \<and>
                trajStartGlobalTime m' = Some (foldl fadd s hs)"
proof -
  have T: "Fin 0 \<le> fsub t (toNumber (trajStartGlobalTime m))"
    and L: "updateLoop64 m (fsub t (toNumber (trajStartGlobalTime m))) = Some m'"
    using assms by (simp_all add: update64_Inr)
  have "trajStartGlobalTime m \<noteq> None"
  proof
    assume "trajStartGlobalTime m = None"
    then have "fsub t (toNumber (trajStartGlobalTime m)) = NaN" by (cases t) simp_all
    then show False using T by simp
  qed
  then obtain s where s: "trajStartGlobalTime m = Some s" by blast
  from updateLoop64_hitTimes [OF L] obtain hs where
    "hitTimes64 m (fsub t s) = Some hs"
    "trajStartGlobalTime m' = (if hs = [] then Some s else Some (foldl fadd s hs))"
    using s by auto
  then show ?thesis using s by (cases hs) auto
qed

lemmas pass64_defs = updatePass64_def velAtTrajTime64_def posAtTrajTime64_def trajTimeAtDisp64_def
  trajTimeAtStop64_def reboundVel64_def Let_def

lemma demo_roundings:
  "toDouble (25 / 2) = Fin (25 / 2)" "toDouble (125 / 2) = Fin (125 / 2)"
  using toDouble_dyadic [of 25 1] toDouble_dyadic [of 125 1] by simp_all

lemma demo_run:
  "runCalls64 demoMotion [SetPos (Fin 50), SetVel (Fin 0) (Fin 25)] =
     Some (Inr (demoMotion\<lparr> initPos := Fin 50, pos := Fin 50, trajStartGlobalTime := Some (Fin 0),
                            initVel := Fin 25, vel := Fin 25 \<rparr>))"
  by (simp add: demoMotion_def setPos_def setVel_def checkRange_def)

lemma demo_update:
  assumes "t = 5 \<or> t = 3"
  shows "update64 (demoMotion\<lparr> initPos := Fin 50, pos := p, trajStartGlobalTime := Some (Fin 0),
                            initVel := Fin 25, vel := v \<rparr>) (Fin t) =
     Some (Inr (demoMotion\<lparr> initPos := Fin 50, trajStartGlobalTime := Some (Fin 0),
                            initVel := Fin 25, pos := Fin (125 / 2), vel := Fin 0 \<rparr>))"
proof -
  have "updatePass64 (demoMotion\<lparr> initPos := Fin 50, pos := p, trajStartGlobalTime := Some (Fin 0),
                            initVel := Fin 25, vel := v \<rparr>) (Fin t) = Done (Fin (125 / 2)) (Fin 0)"
    using assms demo_roundings by (auto simp add: pass64_defs demoMotion_def)
  then have "updateLoop64 (demoMotion\<lparr> initPos := Fin 50, pos := p, trajStartGlobalTime := Some (Fin 0),
                            initVel := Fin 25, vel := v \<rparr>) (Fin t) =
     Some (demoMotion\<lparr> initPos := Fin 50, trajStartGlobalTime := Some (Fin 0),
                            initVel := Fin 25, pos := Fin (125 / 2), vel := Fin 0 \<rparr>)"
    by (subst updateLoop64.simps) (simp add: demoMotion_def)
  moreover have "fsub (Fin t) (Fin 0) = Fin t" "0 \<le> t" using assms by auto
  ultimately show ?thesis by (simp add: update64_def Let_def)
qed

section \<open>Termination of the update\<close>








section \<open>The position and the time of an update\<close>




text \<open>
  Claim C4, as stated, fails for an update at a time before that of the previous update: with
  no rebound in between, the start of the trajectory is still the time of \<open>setVel\<close>, and the
  second update returns.
\<close>

theorem update_earlier_time_counterexample:
  "Fin 3 < Fin 5 \<and>
   runCalls64 demoMotion [SetPos (Fin 50), SetVel (Fin 0) (Fin 25), Update (Fin 5)] =
     Some (Inr (demoMotion\<lparr> initPos := Fin 50, trajStartGlobalTime := Some (Fin 0),
                            initVel := Fin 25, pos := Fin (125 / 2), vel := Fin 0 \<rparr>)) \<and>
   runCalls64 demoMotion [SetPos (Fin 50), SetVel (Fin 0) (Fin 25), Update (Fin 5), Update (Fin 3)] =
     Some (Inr (demoMotion\<lparr> initPos := Fin 50, trajStartGlobalTime := Some (Fin 0),
                            initVel := Fin 25, pos := Fin (125 / 2), vel := Fin 0 \<rparr>))"
proof -
  have a: "runCalls64 demoMotion ([SetPos (Fin 50), SetVel (Fin 0) (Fin 25)] @ [Update (Fin 5)]) =
     Some (Inr (demoMotion\<lparr> initPos := Fin 50, trajStartGlobalTime := Some (Fin 0),
                            initVel := Fin 25, pos := Fin (125 / 2), vel := Fin 0 \<rparr>))"
    unfolding runCalls64_append demo_run by (simp add: demo_update)
  have "runCalls64 demoMotion (([SetPos (Fin 50), SetVel (Fin 0) (Fin 25)] @ [Update (Fin 5)]) @ [Update (Fin 3)]) =
     Some (Inr (demoMotion\<lparr> initPos := Fin 50, trajStartGlobalTime := Some (Fin 0),
                            initVel := Fin 25, pos := Fin (125 / 2), vel := Fin 0 \<rparr>))"
    unfolding runCalls64_append [of _ "_ @ _"] a
    using demo_update [where t = 3 and p = "Fin (125 / 2)" and v = "Fin 0"] by (simp add: demoMotion_def)
  then show ?thesis using a by simp
qed

text \<open>
  Claim C4, amended. \<open>setVel\<close> makes its time the start of the trajectory. An update throws
  exactly when its time minus the start of the trajectory is not at least 0, which for doubles
  is when the time is before that start, and what it throws is a RangeError. An update that
  returns leaves as the start of the trajectory the old one with the hit times of its
  rebounds added, in their order.
\<close>

theorem update_throws_iff:
  "(setVel m t0 v = Inr m1 \<longrightarrow> trajStartGlobalTime m1 = Some t0 \<and> isFinite t0) \<and>
   (update64 m t = Some (Inl e) \<longleftrightarrow>
      e = RangeError \<and> \<not> Fin 0 \<le> fsub t (toNumber (trajStartGlobalTime m))) \<and>
   (isDouble \<tau> \<and> isDouble s \<longrightarrow> (Fin 0 \<le> fsub (Fin \<tau>) (Fin s) \<longleftrightarrow> s \<le> \<tau>)) \<and>
   (update64 m t = Some (Inr m') \<longrightarrow>
      (\<exists>s hs. trajStartGlobalTime m = Some s \<and> hitTimes64 m (fsub t s) = Some hs \<and>
               trajStartGlobalTime m' = Some (foldl fadd s hs)))"
proof -
  have A: "trajStartGlobalTime m1 = Some t0 \<and> isFinite t0" if "setVel m t0 v = Inr m1"
    using setVel_Inr [OF that] by simp
  have B: "Fin 0 \<le> fsub (Fin \<tau>) (Fin s) \<longleftrightarrow> s \<le> \<tau>" if "isDouble \<tau>" "isDouble s"
    by (rule fsub_nonneg_iff [OF that])
  have C: "\<exists>s hs. trajStartGlobalTime m = Some s \<and> hitTimes64 m (fsub t s) = Some hs \<and>
               trajStartGlobalTime m' = Some (foldl fadd s hs)"
    if "update64 m t = Some (Inr m')"
    by (rule update64_returns [OF that])
  show ?thesis using A B C update64_Inl [of m t e] by blast
qed

lemma small_roundings:
  "toDouble (1 / 4) = Fin (1 / 4)" "toDouble (1 / 8) = Fin (1 / 8)"
  "toDouble (3 / 2) = Fin (3 / 2)" "toDouble (5 / 2) = Fin (5 / 2)"
  "toDouble (3 / 32) = Fin (3 / 32)" "toDouble (- (3 / 2)) = Fin (- (3 / 2))"
  "toDouble (- (9 / 64)) = Fin (- (9 / 64))" "toDouble (119 / 64) = Fin (119 / 64)"
  "toDouble (- 3) = Fin (- 3)"
  using toDouble_dyadic [of 1 2] toDouble_dyadic [of 1 3] toDouble_dyadic [of 3 1]
    toDouble_dyadic [of 5 1] toDouble_dyadic [of 3 5] toDouble_dyadic [of "- 3" 1]
    toDouble_dyadic [of "- 9" 6] toDouble_dyadic [of 119 6]
  by simp_all

lemma sqrt_36: "sqrt 36 = 6"
  by (rule real_sqrt_unique) simp_all

lemma small_passes:
  "updatePass64 smallStart (Fin (1 / 4)) =
     NewTraj (smallStart\<lparr> trajStartGlobalTime := Some (Fin (1 / 8)), initVel := Fin (- 3),
                          initPos := Fin 2 \<rparr>) (Fin (1 / 8))"
  "passHitTime64 smallStart (Fin (1 / 4)) = Fin (1 / 8)"
  "updatePass64 (smallStart\<lparr> trajStartGlobalTime := Some (Fin (1 / 8)), initVel := Fin (- 3),
                          initPos := Fin 2 \<rparr>) (Fin (1 / 8)) = Done (Fin (119 / 64)) (Fin 0)"
  using small_roundings sqrt_36
  by (simp_all add: pass64_defs passHitTime64_def smallStart_def smallMotion_def)

lemma small_update:
  "update64 smallStart (Fin (1 / 4)) = Some (Inr smallEnd)"
  "hitTimes64 smallStart (Fin (1 / 4)) = Some [Fin (1 / 8)]"
proof -
  have "updateLoop64 smallStart (Fin (1 / 4)) = Some smallEnd"
    by (subst updateLoop64.simps, simp add: small_passes, subst updateLoop64.simps)
       (simp add: small_passes, simp add: smallStart_def smallEnd_def)
  moreover have "fsub (Fin (1 / 4)) (toNumber (trajStartGlobalTime smallStart)) = Fin (1 / 4)"
    by (simp add: smallStart_def small_roundings)
  ultimately show "update64 smallStart (Fin (1 / 4)) = Some (Inr smallEnd)"
    by (simp add: update64_def Let_def)
  show "hitTimes64 smallStart (Fin (1 / 4)) = Some [Fin (1 / 8)]"
    by (subst hitTimes64.simps, simp add: small_passes, subst hitTimes64.simps)
       (simp add: small_passes)
qed

theorem update_throws_iff_witness:
  "setVel smallMotion (Fin 4) (Fin 10) =
     Inr (smallMotion\<lparr> trajStartGlobalTime := Some (Fin 4), initVel := Fin 10, vel := Fin 10 \<rparr>) \<and>
   trajStartGlobalTime
     (smallMotion\<lparr> trajStartGlobalTime := Some (Fin 4), initVel := Fin 10, vel := Fin 10 \<rparr>) =
     Some (Fin 4) \<and>
   isDouble 1 \<and> isDouble 2 \<and> \<not> Fin 0 \<le> fsub (Fin 1) (Fin 2) \<and>
   update64 (smallStart\<lparr> trajStartGlobalTime := Some (Fin 2) \<rparr>) (Fin 1) = Some (Inl RangeError) \<and>
   update64 smallStart (Fin (1 / 4)) = Some (Inr smallEnd) \<and>
   hitTimes64 smallStart (Fin (1 / 4)) = Some [Fin (1 / 8)] \<and>
   (\<exists>s hs. trajStartGlobalTime smallStart = Some s \<and>
      hitTimes64 smallStart (fsub (Fin (1 / 4)) s) = Some hs \<and>
      trajStartGlobalTime smallEnd = Some (foldl fadd s hs))"
proof -
  have sv: "setVel smallMotion (Fin 4) (Fin 10) =
     Inr (smallMotion\<lparr> trajStartGlobalTime := Some (Fin 4), initVel := Fin 10, vel := Fin 10 \<rparr>)"
    by (simp add: setVel_def checkRange_def smallMotion_def)
  have d: "isDouble 1" "isDouble 2"
    using isDoubleI [of 1 1 0] isDoubleI [of 2 2 0] by simp_all
  have ts: "toNumber (trajStartGlobalTime (smallStart\<lparr> trajStartGlobalTime := Some (Fin 2) \<rparr>)) = Fin 2"
    by simp
  from update_throws_iff [where m = "smallStart\<lparr> trajStartGlobalTime := Some (Fin 2) \<rparr>"
      and t = "Fin 1" and e = RangeError and \<tau> = 1 and s = 2] d ts
  have a: "\<not> Fin 0 \<le> fsub (Fin 1) (Fin 2)"
    "update64 (smallStart\<lparr> trajStartGlobalTime := Some (Fin 2) \<rparr>) (Fin 1) = Some (Inl RangeError)"
    by auto
  from update_throws_iff [where m = smallStart and t = "Fin (1 / 4)" and m' = smallEnd]
    small_update(1)
  have b: "\<exists>s hs. trajStartGlobalTime smallStart = Some s \<and>
      hitTimes64 smallStart (fsub (Fin (1 / 4)) s) = Some hs \<and>
      trajStartGlobalTime smallEnd = Some (foldl fadd s hs)"
    by blast
  from update_throws_iff [where m = smallMotion and ?t0.0 = "Fin 4" and v = "Fin 10" and
      ?m1.0 = "smallMotion\<lparr> trajStartGlobalTime := Some (Fin 4), initVel := Fin 10, vel := Fin 10 \<rparr>"] sv
  have c: "trajStartGlobalTime
     (smallMotion\<lparr> trajStartGlobalTime := Some (Fin 4), initVel := Fin 10, vel := Fin 10 \<rparr>) =
     Some (Fin 4)"
    by blast
  show ?thesis using sv c d a b small_update by blast
qed

section \<open>A rebound without a stop\<close>





section \<open>The scenario with the velocity 2000\<close>









end
